theory Spec2Isabelle
  imports Complex_Main "HOL-Library.AList" "HOL-Library.Product_Lexorder"
begin

section \<open>The two date-fns functions the charts call\<close>

text \<open>
  \<^verbatim>\<open>WeatherCharts.tsx\<close> turns every timestamp string into a JavaScript \<^verbatim>\<open>Date\<close> with
  \<^verbatim>\<open>parseISO\<close> and prints it with \<^verbatim>\<open>format\<close>, both imported from the library date-fns.
  What the two functions return depends on the version of the library and on the machine
  that runs the page: \<^verbatim>\<open>format\<close> prints the fields that the local-time getters of the
  \<^verbatim>\<open>Date\<close> return, and \<^verbatim>\<open>parseISO\<close> reads a string without zone designator as local time.

  The aggregator is therefore embedded with the two functions as a parameter, a record
  \<open>L\<close> with the fields \<open>parseISO\<close> and \<open>format\<close> over any type \<open>'d\<close> of dates. What is proved
  of the aggregator for every \<open>L\<close> holds for the library as it is, in every version, time
  zone and locale. \<^verbatim>\<open>format\<close> throws a \<^verbatim>\<open>RangeError\<close> when it is given Invalid Date, so its
  result is an error or a string. A model of the library itself, on a machine whose zone
  has a fixed offset to UTC, follows in its own section below.
\<close>

datatype RangeError = RangeError

record 'd datefns =
  parseISO :: "string \<Rightarrow> 'd"
  format :: "'d \<Rightarrow> string \<Rightarrow> RangeError + string"

text \<open>
  The other exception of the components below: a \<^verbatim>\<open>TypeError\<close> is thrown when a property
  is read from \<^verbatim>\<open>null\<close> or \<^verbatim>\<open>undefined\<close>, or a value that is not a function is called.
\<close>

datatype TypeError = TypeError

section \<open>Strings of decimal digits\<close>

definition is_digit :: "char \<Rightarrow> bool" where
  "is_digit c \<longleftrightarrow> (48::nat) \<le> of_char c \<and> of_char c \<le> (57::nat)"

definition digit_val :: "char \<Rightarrow> nat" where
  "digit_val c = of_char c - 48"

definition digit_char :: "nat \<Rightarrow> char" where
  "digit_char n = char_of (48 + n)"

text \<open>\<^verbatim>\<open>parseInt\<close> on a string of decimal digits.\<close>

definition parseInt :: "string \<Rightarrow> int" where
  "parseInt s = foldl (\<lambda>n c. 10 * n + int (digit_val c)) 0 s"

definition all_digits :: "string \<Rightarrow> bool" where
  "all_digits s = list_all is_digit s"

section \<open>The aggregator of \<^verbatim>\<open>WeatherCharts.tsx\<close>\<close>

text \<open>
  JavaScript numbers are IEEE 754 doubles. The number type is left open in the
  definitions: the aggregator only adds numbers, starting from zero, and divides a sum by
  a count.
\<close>

datatype AggregationType = hourly | daily | monthly

record 'n TimeSeriesPoint =
  timestamp :: string
  cloud_cover_pct :: 'n
  lightning_prob_pct :: 'n

text \<open>
  \<^verbatim>\<open>ChartDataPoint\<close> has the three fields of a \<^verbatim>\<open>TimeSeriesPoint\<close> and a label.
\<close>

record 'n ChartDataPoint = "'n TimeSeriesPoint" +
  label :: string

text \<open>
  What \<^verbatim>\<open>aggregateData\<close> can throw: the \<^verbatim>\<open>RangeError\<close> of \<^verbatim>\<open>format\<close>, and a \<^verbatim>\<open>TypeError\<close>
  when it calls \<^verbatim>\<open>push\<close> on a value that is \<^verbatim>\<open>undefined\<close>.
\<close>

type_synonym exception = "RangeError + TypeError"

subsection \<open>The object \<^verbatim>\<open>grouped\<close>\<close>

text \<open>The values of one bucket of \<^verbatim>\<open>grouped\<close>, in the order they were pushed.\<close>

record 'n bucket =
  cloud :: "'n list"
  lightning :: "'n list"

text \<open>
  \<^verbatim>\<open>grouped\<close> is an object used as a dictionary; it starts as \<^verbatim>\<open>{}\<close>. Its own properties
  are kept as an association list in the order in which they were created.
\<close>

type_synonym 'n grouped = "(string \<times> 'n bucket) list"

text \<open>
  A property that the object does not have itself is looked up in \<^verbatim>\<open>Object.prototype\<close>,
  which has the properties named below; their values are functions and, for \<^verbatim>\<open>__proto__\<close>,
  the prototype itself.
\<close>

definition Object_prototype_names :: "string list" where
  "Object_prototype_names =
     [''constructor'', ''__defineGetter__'', ''__defineSetter__'', ''hasOwnProperty'',
      ''__lookupGetter__'', ''__lookupSetter__'', ''isPrototypeOf'', ''propertyIsEnumerable'',
      ''toString'', ''valueOf'', ''__proto__'', ''toLocaleString'']"

datatype 'n looked_up = Own "'n bucket" | Inherited | Not_found

text \<open>\<^verbatim>\<open>grouped[key]\<close>\<close>

definition get_property :: "'n grouped \<Rightarrow> string \<Rightarrow> 'n looked_up" where
  "get_property grouped key =
     (case map_of grouped key of
        Some v \<Rightarrow> Own v
      | None \<Rightarrow> if key \<in> set Object_prototype_names then Inherited else Not_found)"

text \<open>
  The three statements of the \<^verbatim>\<open>forEach\<close> body that follow the computation of the key.
  A bucket is created when \<^verbatim>\<open>grouped[key]\<close> is \<^verbatim>\<open>undefined\<close>; an inherited property is not,
  it is an object without a property \<^verbatim>\<open>cloud\<close>, and \<^verbatim>\<open>grouped[key].cloud.push\<close> throws a
  \<^verbatim>\<open>TypeError\<close> on it.
\<close>

definition push_point :: "string \<Rightarrow> 'n TimeSeriesPoint \<Rightarrow> 'n grouped \<Rightarrow> TypeError + 'n grouped" where
  "push_point key p grouped =
     (let g1 = (if get_property grouped key = Not_found
                then grouped @ [(key, \<lparr>cloud = [], lightning = []\<rparr>)] else grouped)
      in case get_property g1 key of
           Own bucket \<Rightarrow>
             (let g2 = AList.map_entry key (\<lambda>v. v\<lparr>cloud := cloud v @ [cloud_cover_pct p]\<rparr>) g1
              in Inr (AList.map_entry key
                        (\<lambda>v. v\<lparr>lightning := lightning v @ [lightning_prob_pct p]\<rparr>) g2))
         | _ \<Rightarrow> Inl TypeError)"

text \<open>
  \<^verbatim>\<open>Object.entries\<close> lists the properties whose names are array indices first, by
  ascending index, and then the others in the order in which they were created. An array
  index is the decimal notation of a whole number from 0 to 4294967294.
\<close>

definition array_index :: "string \<Rightarrow> bool" where
  "array_index k \<longleftrightarrow>
     k \<noteq> [] \<and> all_digits k \<and> (k = ''0'' \<or> hd k \<noteq> CHR ''0'') \<and> parseInt k < 4294967295"

definition Object_entries :: "'n grouped \<Rightarrow> (string \<times> 'n bucket) list" where
  "Object_entries grouped =
     sort_key (\<lambda>entry. parseInt (fst entry)) (filter (\<lambda>entry. array_index (fst entry)) grouped) @
     filter (\<lambda>entry. \<not> array_index (fst entry)) grouped"

subsection \<open>aggregateData\<close>

text \<open>The count \<^verbatim>\<open>v.cloud.length\<close> as a number.\<close>

primrec number_of_nat :: "nat \<Rightarrow> 'n::{zero,one,plus}" where
  "number_of_nat 0 = 0"
| "number_of_nat (Suc n) = number_of_nat n + 1"

text \<open>\<^verbatim>\<open>xs.reduce((a, b) => a + b, 0) / xs.length\<close>\<close>

definition mean :: "'n::{zero,one,plus,inverse} list \<Rightarrow> 'n" where
  "mean xs = foldl (\<lambda>a b. a + b) 0 xs / number_of_nat (length xs)"

text \<open>The key of a point under a daily or monthly request; it fails when \<^verbatim>\<open>format\<close> throws.\<close>

definition bucket_key :: "'d datefns \<Rightarrow> AggregationType \<Rightarrow> ('n, 'm) TimeSeriesPoint_scheme
    \<Rightarrow> RangeError + string" where
  "bucket_key L agg p =
     format L (parseISO L (timestamp p)) (if agg = daily then ''yyyy-MM-dd'' else ''yyyy-MM'')"

text \<open>\<^verbatim>\<open>series.forEach\<close>: an exception thrown in the body ends the loop.\<close>

fun group_points :: "'d datefns \<Rightarrow> AggregationType \<Rightarrow> 'n TimeSeriesPoint list \<Rightarrow> 'n grouped
    \<Rightarrow> exception + 'n grouped" where
  "group_points L agg [] grouped = Inr grouped"
| "group_points L agg (p # ps) grouped =
     (case bucket_key L agg p of
        Inl e \<Rightarrow> Inl (Inl e)
      | Inr key \<Rightarrow>
          (case push_point key p grouped of
             Inl e \<Rightarrow> Inl (Inr e)
           | Inr grouped' \<Rightarrow> group_points L agg ps grouped'))"

text \<open>The \<^verbatim>\<open>series.map\<close> of the hourly branch.\<close>

fun hourly_points :: "'d datefns \<Rightarrow> 'n TimeSeriesPoint list \<Rightarrow> exception + 'n ChartDataPoint list" where
  "hourly_points L [] = Inr []"
| "hourly_points L (p # ps) =
     (case format L (parseISO L (timestamp p)) ''dd/MM HH:mm'' of
        Inl e \<Rightarrow> Inl (Inl e)
      | Inr l \<Rightarrow>
          (case hourly_points L ps of
             Inl e \<Rightarrow> Inl e
           | Inr rest \<Rightarrow>
               Inr (\<lparr>timestamp = timestamp p, cloud_cover_pct = cloud_cover_pct p,
                     lightning_prob_pct = lightning_prob_pct p, label = l\<rparr> # rest)))"

definition bucket_point :: "string \<times> 'n::{zero,one,plus,inverse} bucket \<Rightarrow> 'n ChartDataPoint" where
  "bucket_point entry =
     (case entry of (key, v) \<Rightarrow>
        \<lparr>timestamp = key, cloud_cover_pct = mean (cloud v),
         lightning_prob_pct = mean (lightning v), label = key\<rparr>)"

definition aggregateData :: "'d datefns \<Rightarrow> 'n::{zero,one,plus,inverse} TimeSeriesPoint list
    \<Rightarrow> AggregationType \<Rightarrow> exception + 'n ChartDataPoint list" where
  "aggregateData L series agg =
     (if agg = hourly \<or> length series \<le> 24 then hourly_points L series
      else (case group_points L agg series [] of
              Inl e \<Rightarrow> Inl e
            | Inr grouped \<Rightarrow> Inr (map bucket_point (Object_entries grouped))))"

subsection \<open>Notions used to state the aggregator's properties\<close>

text \<open>The pattern that \<^verbatim>\<open>aggregateData\<close> prints the timestamps of a series with.\<close>

definition pattern_used :: "'n TimeSeriesPoint list \<Rightarrow> AggregationType \<Rightarrow> string" where
  "pattern_used series agg =
     (if agg = hourly \<or> length series \<le> 24 then ''dd/MM HH:mm''
      else if agg = daily then ''yyyy-MM-dd'' else ''yyyy-MM'')"

text \<open>The input points that share a calendar key, in input order.\<close>

definition points_with_key :: "'d datefns \<Rightarrow> AggregationType \<Rightarrow> 'n TimeSeriesPoint list \<Rightarrow> string
    \<Rightarrow> 'n TimeSeriesPoint list" where
  "points_with_key L agg series key = filter (\<lambda>p. bucket_key L agg p = Inr key) series"


text \<open>The distinct elements of a list in the order of their first occurrence.\<close>

fun first_seen :: "'a list \<Rightarrow> 'a list" where
  "first_seen [] = []"
| "first_seen (x # xs) = x # first_seen (filter (\<lambda>y. y \<noteq> x) xs)"

text \<open>For every value of \<open>k\<close>, the first element of the list that takes it.\<close>

fun first_of_each :: "('a \<Rightarrow> 'k) \<Rightarrow> 'a list \<Rightarrow> 'a list" where
  "first_of_each k [] = []"
| "first_of_each k (x # xs) = x # first_of_each k (filter (\<lambda>y. k y \<noteq> k x) xs)"

text \<open>The bucket stored under a key, empty when the key is absent.\<close>

definition bucket_values :: "'n grouped \<Rightarrow> string \<Rightarrow> 'n bucket" where
  "bucket_values grouped key =
     (case map_of grouped key of None \<Rightarrow> \<lparr>cloud = [], lightning = []\<rparr> | Some v \<Rightarrow> v)"

text \<open>
  What the three statements of the loop body do to \<^verbatim>\<open>grouped\<close> when they throw nothing:
  a bucket is created for a new key, and the two values are appended to the bucket of the
  key.
\<close>

definition add_point :: "string \<Rightarrow> 'n TimeSeriesPoint \<Rightarrow> 'n grouped \<Rightarrow> 'n grouped" where
  "add_point key p grouped =
     (let g1 = (if map_of grouped key = None
                then grouped @ [(key, \<lparr>cloud = [], lightning = []\<rparr>)] else grouped);
          g2 = AList.map_entry key (\<lambda>v. v\<lparr>cloud := cloud v @ [cloud_cover_pct p]\<rparr>) g1
      in AList.map_entry key (\<lambda>v. v\<lparr>lightning := lightning v @ [lightning_prob_pct p]\<rparr>) g2)"

text \<open>
  A key with a hyphen in it, as \<^verbatim>\<open>format\<close> prints with the patterns \<^verbatim>\<open>yyyy-MM-dd\<close> and
  \<^verbatim>\<open>yyyy-MM\<close>, is no array index and no property of \<^verbatim>\<open>Object.prototype\<close>.
\<close>

definition hyphenated :: "string \<Rightarrow> bool" where
  "hyphenated key \<longleftrightarrow> CHR ''-'' \<in> set key"

section \<open>date-fns on a machine with a fixed zone offset\<close>

text \<open>
  A model of \<^verbatim>\<open>parseISO\<close> and \<^verbatim>\<open>format\<close>, function by function after the source of
  date-fns (\<^verbatim>\<open>parseISO/index.js\<close>, the same in the versions 2, 3 and 4), for a machine whose
  time zone keeps one offset to UTC all year: \<open>tz\<close> is the number of minutes the zone is
  east of UTC. Zones that change their offset during the year are outside this model, and
  so are strings with characters above U+00FF.

  A \<^verbatim>\<open>Date\<close> is an instant or the value Invalid Date. A valid \<^verbatim>\<open>Date\<close> is represented by the
  fields its local-time getters return under \<open>tz\<close>; under one offset they determine the
  instant.
\<close>

record civil =
  year :: int
  month :: nat
  day :: nat
  hours :: nat
  minutes :: nat
  seconds :: nat
  milliseconds :: nat

datatype Date = Invalid_Date | Date civil

subsection \<open>Printing a number\<close>

text \<open>\<^verbatim>\<open>String(n)\<close> for a natural number: its decimal digits, most significant first.\<close>

function number_to_string :: "nat \<Rightarrow> string" where
  "number_to_string n =
     (if n < 10 then [digit_char n]
      else number_to_string (n div 10) @ [digit_char (n mod 10)])"
  by pat_completeness auto
termination
  by (relation "measure (\<lambda>n. n)") auto

declare number_to_string.simps [simp del]

text \<open>date-fns \<^verbatim>\<open>addLeadingZeros(number, targetLength)\<close>.\<close>

definition addLeadingZeros :: "nat \<Rightarrow> nat \<Rightarrow> string" where
  "addLeadingZeros n targetLength =
     (let output = number_to_string n
      in replicate (targetLength - length output) (CHR ''0'') @ output)"

subsection \<open>Numbers\<close>

text \<open>
  The time of day is computed with JavaScript numbers, which are doubles, and a written
  time may carry a decimal fraction. So the rounding of every operation is kept: a
  rational number is rounded to the nearest double, a tie to the even one. Numbers too
  large for a double do not occur.
\<close>

definition pow2 :: "int \<Rightarrow> rat" where
  "pow2 e = (if 0 \<le> e then 2 ^ nat e else 1 / 2 ^ nat (- e))"

text \<open>The exponent \<open>e\<close> of a positive number: \<open>2\<^sup>e\<close> is at most the number, \<open>2\<^sup>e\<^sup>+\<^sup>1\<close> is above it.\<close>

function bit_length :: "int \<Rightarrow> nat" where
  "bit_length n = (if n \<le> 0 then 0 else Suc (bit_length (n div 2)))"
  by pat_completeness auto
termination
  by (relation "measure nat") auto

declare bit_length.simps [simp del]

definition exponent :: "rat \<Rightarrow> int" where
  "exponent a =
     (if 1 \<le> a then int (bit_length \<lfloor>a\<rfloor>) - 1
      else let f = int (bit_length \<lfloor>1 / a\<rfloor>) - 1
           in if pow2 f = 1 / a then - f else - f - 1)"

definition round_half_even :: "rat \<Rightarrow> int" where
  "round_half_even q =
     (let f = \<lfloor>q\<rfloor>; r = q - of_int f
      in if r < 1 / 2 then f else if 1 / 2 < r then f + 1 else if even f then f else f + 1)"

definition nearest_double :: "rat \<Rightarrow> rat" where
  "nearest_double x =
     (if x = 0 then 0
      else let a = \<bar>x\<bar>; ulp = pow2 (max (exponent a) (- 1022) - 52)
           in sgn x * of_int (round_half_even (a / ulp)) * ulp)"

text \<open>The JavaScript operators \<^verbatim>\<open>*\<close> and \<^verbatim>\<open>+\<close> on numbers.\<close>

definition times :: "rat \<Rightarrow> rat \<Rightarrow> rat" where
  "times a b = nearest_double (a * b)"

definition plus :: "rat \<Rightarrow> rat \<Rightarrow> rat" where
  "plus a b = nearest_double (a + b)"

text \<open>
  \<^verbatim>\<open>new Date(value)\<close>: the time value of the new \<^verbatim>\<open>Date\<close>, in milliseconds since the epoch.
  A value beyond 8.64e15 milliseconds gives Invalid Date, a fraction is cut off.
\<close>

definition TimeClip :: "rat \<Rightarrow> int option" where
  "TimeClip v =
     (if 8640000000000000 < \<bar>v\<bar> then None
      else Some (if 0 \<le> v then \<lfloor>v\<rfloor> else \<lceil>v\<rceil>))"

subsection \<open>The calendar\<close>

text \<open>
  date-fns \<^verbatim>\<open>isLeapYearIndex\<close>, \<^verbatim>\<open>daysInMonths\<close> and the \<^verbatim>\<open>validate\<close> functions; months are
  numbered from 1 here, and the day of the week that \<^verbatim>\<open>validateWeekDate\<close> receives is the
  written one less one.
\<close>

definition isLeapYearIndex :: "int \<Rightarrow> bool" where
  "isLeapYearIndex y \<longleftrightarrow> y mod 400 = 0 \<or> (y mod 4 = 0 \<and> y mod 100 \<noteq> 0)"

definition days_in_month :: "int \<Rightarrow> nat \<Rightarrow> nat" where
  "days_in_month y m =
     (if m = 2 then (if isLeapYearIndex y then 29 else 28)
      else if m = 4 \<or> m = 6 \<or> m = 9 \<or> m = 11 then 30 else 31)"

definition validateDate :: "int \<Rightarrow> nat \<Rightarrow> nat \<Rightarrow> bool" where
  "validateDate y m d \<longleftrightarrow> 1 \<le> m \<and> m \<le> 12 \<and> 1 \<le> d \<and> d \<le> days_in_month y m"

definition validateDayOfYearDate :: "int \<Rightarrow> nat \<Rightarrow> bool" where
  "validateDayOfYearDate y dayOfYear \<longleftrightarrow>
     1 \<le> dayOfYear \<and> dayOfYear \<le> (if isLeapYearIndex y then 366 else 365)"

definition validateWeekDate :: "int \<Rightarrow> int \<Rightarrow> int \<Rightarrow> bool" where
  "validateWeekDate y week d \<longleftrightarrow> 1 \<le> week \<and> week \<le> 53 \<and> 0 \<le> d \<and> d \<le> 6"

definition validateTime :: "rat \<Rightarrow> rat \<Rightarrow> rat \<Rightarrow> bool" where
  "validateTime h mi s \<longleftrightarrow>
     (if h = 24 then mi = 0 \<and> s = 0
      else 0 \<le> s \<and> s < 60 \<and> 0 \<le> mi \<and> mi < 60 \<and> 0 \<le> h \<and> h < 25)"

definition validateTimezone :: "int \<Rightarrow> int \<Rightarrow> bool" where
  "validateTimezone h mi \<longleftrightarrow> mi \<le> 59"

definition next_day :: "int \<times> nat \<times> nat \<Rightarrow> int \<times> nat \<times> nat" where
  "next_day ymd =
     (case ymd of (y, m, d) \<Rightarrow>
        if d < days_in_month y m then (y, m, d + 1)
        else if m < 12 then (y, m + 1, 1)
        else (y + 1, 1, 1))"

definition prev_day :: "int \<times> nat \<times> nat \<Rightarrow> int \<times> nat \<times> nat" where
  "prev_day ymd =
     (case ymd of (y, m, d) \<Rightarrow>
        if 1 < d then (y, m, d - 1)
        else if 1 < m then (y, m - 1, days_in_month y (m - 1))
        else (y - 1, 12, 31))"

text \<open>The date \<open>k\<close> days after a date, before it when \<open>k\<close> is negative.\<close>

definition add_days :: "int \<Rightarrow> int \<times> nat \<times> nat \<Rightarrow> int \<times> nat \<times> nat" where
  "add_days k ymd = (if 0 \<le> k then (next_day ^^ nat k) ymd else (prev_day ^^ nat (- k)) ymd)"

text \<open>
  The day number of a date, the days from 1 January 1970 to it in the Gregorian calendar
  that JavaScript extends to all years: what \<^verbatim>\<open>MakeDay\<close> of the language computes.
\<close>

definition day_number :: "int \<times> nat \<times> nat \<Rightarrow> int" where
  "day_number ymd =
     (case ymd of (y, m, d) \<Rightarrow>
        let y' = (if m \<le> 2 then y - 1 else y);
            era = y' div 400;
            yoe = y' - era * 400;
            mp = (if 2 < m then int m - 3 else int m + 9);
            doy = (153 * mp + 2) div 5 + int d - 1;
            doe = yoe * 365 + yoe div 4 - yoe div 100 + doy
        in era * 146097 + doe - 719468)"

text \<open>A day number a \<^verbatim>\<open>Date\<close> can hold: at most 100 000 000 days from the epoch.\<close>

definition day_in_range :: "int \<Rightarrow> bool" where
  "day_in_range n \<longleftrightarrow> \<bar>n\<bar> \<le> 100000000"

text \<open>
  The calendar fields of the time that lies \<open>ms\<close> milliseconds after the midnight that
  begins the date \<open>ymd\<close>.
\<close>

definition fields_at :: "int \<times> nat \<times> nat \<Rightarrow> int \<Rightarrow> civil" where
  "fields_at ymd ms =
     (case add_days (ms div 86400000) ymd of (y, m, d) \<Rightarrow>
        let t = ms mod 86400000
        in \<lparr>year = y, month = m, day = d, hours = nat (t div 3600000),
            minutes = nat (t div 60000 mod 60), seconds = nat (t div 1000 mod 60),
            milliseconds = nat (t mod 1000)\<rparr>)"

subsection \<open>splitDateString\<close>

text \<open>
  The three patterns \<^verbatim>\<open>dateTimeDelimiter: /[T ]/\<close>, \<^verbatim>\<open>timeZoneDelimiter: /[Z ]/i\<close> and
  \<^verbatim>\<open>timezone: /([Z+-].*)$/\<close>. The dot of a regular expression matches no line terminator.
\<close>

definition is_dateTimeDelimiter :: "char \<Rightarrow> bool" where
  "is_dateTimeDelimiter c \<longleftrightarrow> c = CHR ''T'' \<or> c = CHR '' ''"

definition is_timeZoneDelimiter :: "char \<Rightarrow> bool" where
  "is_timeZoneDelimiter c \<longleftrightarrow> c = CHR ''Z'' \<or> c = CHR ''z'' \<or> c = CHR '' ''"

definition is_zone_start :: "char \<Rightarrow> bool" where
  "is_zone_start c \<longleftrightarrow> c = CHR ''Z'' \<or> c = CHR ''+'' \<or> c = CHR ''-''"

definition is_line_terminator :: "char \<Rightarrow> bool" where
  "is_line_terminator c \<longleftrightarrow> c = CHR 0x0A \<or> c = CHR 0x0D"

text \<open>
  \<^verbatim>\<open>patterns.timezone.exec(timeString)\<close>: the matched text, which begins at the first
  \<^verbatim>\<open>Z\<close>, \<^verbatim>\<open>+\<close> or \<^verbatim>\<open>-\<close> that no line terminator follows and runs to the end; empty when
  nothing matches.
\<close>

fun timezone_token :: "string \<Rightarrow> string" where
  "timezone_token [] = []"
| "timezone_token (c # cs) =
     (if is_zone_start c \<and> \<not> list_ex is_line_terminator cs then c # cs
      else timezone_token cs)"

text \<open>\<^verbatim>\<open>s.replace(token, '')\<close> for a string \<^verbatim>\<open>token\<close>: its first occurrence is left out.\<close>

fun remove_first :: "string \<Rightarrow> string \<Rightarrow> string" where
  "remove_first token [] = []"
| "remove_first token (c # cs) =
     (if take (length token) (c # cs) = token then drop (length token) (c # cs)
      else c # remove_first token cs)"

text \<open>
  \<^verbatim>\<open>splitDateString\<close>: the date, the time and the zone designator of a string. An empty
  part stands for a part that is \<^verbatim>\<open>undefined\<close> or empty; the caller tests the parts for
  truth only. A string with two or more delimiters \<^verbatim>\<open>T\<close> or space has no part at all.
\<close>

definition splitDateString :: "string \<Rightarrow> string \<times> string \<times> string" where
  "splitDateString dateString =
     (let array0 = takeWhile (\<lambda>c. \<not> is_dateTimeDelimiter c) dateString;
          array1 = drop (Suc (length array0)) dateString
      in if 2 \<le> length (filter is_dateTimeDelimiter dateString) then ([], [], [])
         else
           let (date, timeString) =
                 (if CHR '':'' \<in> set array0 then ([], array0)
                  else if list_ex is_timeZoneDelimiter array0
                  then (let d = takeWhile (\<lambda>c. \<not> is_timeZoneDelimiter c) dateString
                        in (d, drop (length d) dateString))
                  else (array0, array1));
               token = timezone_token timeString
           in if token = [] then (date, timeString, [])
              else (date, remove_first token timeString, token))"

subsection \<open>parseYear and parseDate\<close>

definition is_sign :: "char \<Rightarrow> bool" where
  "is_sign c \<longleftrightarrow> c = CHR ''+'' \<or> c = CHR ''-''"

definition signed :: "char \<Rightarrow> int \<Rightarrow> int" where
  "signed c n = (if c = CHR ''-'' then - n else n)"

text \<open>
  \<^verbatim>\<open>parseYear\<close> with two additional digits, the default: the year and the rest of the date
  string. A year is four digits, or a sign and six digits; a string of two digits, or of a
  sign and four digits, is a century. \<open>None\<close> stands for the year \<^verbatim>\<open>NaN\<close>, with which
  \<^verbatim>\<open>parseDate\<close> returns Invalid Date.
\<close>

definition parseYear :: "string \<Rightarrow> (int \<times> string) option" where
  "parseYear s =
     (if 4 \<le> length s \<and> all_digits (take 4 s) then Some (parseInt (take 4 s), drop 4 s)
      else if 7 \<le> length s \<and> is_sign (hd s) \<and> all_digits (take 6 (tl s))
      then Some (signed (hd s) (parseInt (take 6 (tl s))), drop 7 s)
      else if length s = 2 \<and> all_digits s then Some (parseInt s * 100, [])
      else if length s = 5 \<and> is_sign (hd s) \<and> all_digits (tl s)
      then Some (signed (hd s) (parseInt (tl s)) * 100, [])
      else None)"

text \<open>
  The date that \<^verbatim>\<open>setUTCFullYear\<close> and \<^verbatim>\<open>setUTCDate\<close> leave: the date \<open>k\<close> days after \<open>ymd\<close>
  when its day number is one a \<^verbatim>\<open>Date\<close> can hold, Invalid Date otherwise.
\<close>

definition MakeDate :: "int \<Rightarrow> int \<times> nat \<times> nat \<Rightarrow> (int \<times> nat \<times> nat) option" where
  "MakeDate k ymd = (if day_in_range (day_number ymd + k) then Some (add_days k ymd) else None)"

text \<open>
  \<^verbatim>\<open>parseDate\<close> on the rest of the date string, with \<^verbatim>\<open>dayOfISOWeekYear\<close> for a week date.
  After an optional \<^verbatim>\<open>-\<close> the rest is three digits, the day of the year; or two digits,
  the month, and optionally two more, the day, which a \<^verbatim>\<open>-\<close> may precede; or \<^verbatim>\<open>W\<close> and two
  digits, the week, and optionally one more, the day of the week, which a \<^verbatim>\<open>-\<close> may
  precede; or nothing. A part left out counts as 1.
\<close>

definition parseDate :: "string \<Rightarrow> int \<Rightarrow> (int \<times> nat \<times> nat) option" where
  "parseDate dateString y =
     (let r = (if dateString \<noteq> [] \<and> hd dateString = CHR ''-'' then tl dateString
               else dateString);
          calendar = (\<lambda>m d. if validateDate y (nat m) (nat d) then MakeDate 0 (y, nat m, nat d)
                             else None);
          week_date = (\<lambda>week dayOfWeek.
             if validateWeekDate y week (dayOfWeek - 1) \<and> day_in_range (day_number (y, 1, 4))
             then (let fourthOfJanuaryDay = (day_number (y, 1, 4) + 4) mod 7;
                       diff = (week - 1) * 7 + (dayOfWeek - 1) + 1
                              - (if fourthOfJanuaryDay = 0 then 7 else fourthOfJanuaryDay)
                   in MakeDate diff (y, 1, 4))
             else None)
      in if length r = 3 \<and> all_digits r
         then (if validateDayOfYearDate y (nat (parseInt r))
               then MakeDate (parseInt r - 1) (y, 1, 1) else None)
         else if length r = 2 \<and> all_digits r then calendar (parseInt r) 1
         else if length r = 4 \<and> all_digits r
         then calendar (parseInt (take 2 r)) (parseInt (drop 2 r))
         else if length r = 5 \<and> all_digits (take 2 r) \<and> r ! 2 = CHR ''-'' \<and> all_digits (drop 3 r)
         then calendar (parseInt (take 2 r)) (parseInt (drop 3 r))
         else if length r = 3 \<and> hd r = CHR ''W'' \<and> all_digits (tl r)
         then week_date (parseInt (tl r)) 1
         else if length r = 4 \<and> hd r = CHR ''W'' \<and> all_digits (tl r)
         then week_date (parseInt (take 2 (tl r))) (parseInt (drop 3 r))
         else if length r = 5 \<and> hd r = CHR ''W'' \<and> all_digits (take 2 (tl r)) \<and>
                 r ! 3 = CHR ''-'' \<and> is_digit (r ! 4)
         then week_date (parseInt (take 2 (tl r))) (parseInt (drop 4 r))
         else if r = [] then calendar 1 1
         else None)"

subsection \<open>parseTime\<close>

text \<open>
  A unit of time is two digits and, optionally, a decimal fraction: a point or a comma and
  any number of digits. The unit \<^verbatim>\<open>\d{2}(?:[.,]\d*)?\<close> can match the head of a string in
  several ways; they are listed in the order in which the regular expression tries them,
  the longest fraction first, each with the rest of the string.
\<close>

definition is_fraction_mark :: "char \<Rightarrow> bool" where
  "is_fraction_mark c \<longleftrightarrow> c = CHR ''.'' \<or> c = CHR '',''"

definition time_units :: "string \<Rightarrow> (string \<times> string) list" where
  "time_units s =
     (case s of
        a # b # r \<Rightarrow>
          if is_digit a \<and> is_digit b then
            (case r of
               [] \<Rightarrow> []
             | m # r' \<Rightarrow>
                 if is_fraction_mark m
                 then map (\<lambda>k. (a # b # m # take k r', drop k r'))
                        (rev [0..<Suc (length (takeWhile is_digit r'))])
                 else []) @ [([a, b], r)]
          else []
      | _ \<Rightarrow> [])"

text \<open>A unit after the first may be preceded by a colon.\<close>

definition after_colon :: "string \<Rightarrow> string" where
  "after_colon s = (if s \<noteq> [] \<and> hd s = CHR '':'' then tl s else s)"

text \<open>
  \<^verbatim>\<open>timeString.match(timeRegex)\<close>: the three captures of the first way to match the whole
  string with one, two or three units; a capture that took no part is empty.
\<close>

definition time_matches :: "string \<Rightarrow> (string \<times> string \<times> string) list" where
  "time_matches s =
     concat (map (\<lambda>(u1, r1).
         concat (map (\<lambda>(u2, r2).
             concat (map (\<lambda>(u3, r3). if r3 = [] then [(u1, u2, u3)] else [])
                       (time_units (after_colon r2)))
             @ (if r2 = [] then [(u1, u2, [])] else []))
           (time_units (after_colon r1)))
         @ (if r1 = [] then [(u1, [], [])] else []))
       (time_units s))"

text \<open>
  \<^verbatim>\<open>parseTimeUnit\<close>: \<^verbatim>\<open>parseFloat\<close> of the unit with a decimal point, 0 for a unit left out.
\<close>

definition fraction :: "string \<Rightarrow> rat" where
  "fraction digits = foldr (\<lambda>c x. (of_nat (digit_val c) + x) / 10) digits 0"

definition parseTimeUnit :: "string \<Rightarrow> rat" where
  "parseTimeUnit u = nearest_double (of_int (parseInt (take 2 u)) + fraction (drop 3 u))"

text \<open>\<^verbatim>\<open>parseTime\<close>: the milliseconds since midnight, \<open>None\<close> for \<^verbatim>\<open>NaN\<close>.\<close>

definition parseTime :: "string \<Rightarrow> rat option" where
  "parseTime timeString =
     (case time_matches timeString of
        [] \<Rightarrow> None
      | (u1, u2, u3) # others \<Rightarrow>
          let hours = parseTimeUnit u1; minutes = parseTimeUnit u2; seconds = parseTimeUnit u3
          in if validateTime hours minutes seconds
             then Some (plus (plus (times hours 3600000) (times minutes 60000))
                          (times seconds 1000))
             else None)"

subsection \<open>parseTimezone\<close>

text \<open>
  \<^verbatim>\<open>parseTimezone\<close>: the milliseconds to add to the written time to reach UTC, \<open>None\<close> for
  \<^verbatim>\<open>NaN\<close>. A designator is \<^verbatim>\<open>Z\<close>, or a sign, two digits for the hours and optionally two
  for the minutes, which a colon may precede; any other designator counts as UTC.
\<close>

definition parseTimezone :: "string \<Rightarrow> int option" where
  "parseTimezone timezoneString =
     (if timezoneString = ''Z'' then Some 0
      else
        let body = tl timezoneString; rest = drop 2 body
        in if timezoneString \<noteq> [] \<and> is_sign (hd timezoneString) \<and> 2 \<le> length body \<and>
              all_digits (take 2 body) \<and>
              (rest = [] \<or> length (after_colon rest) = 2 \<and> all_digits (after_colon rest))
           then (let sign = (if hd timezoneString = CHR ''+'' then - 1 else 1);
                     hours = parseInt (take 2 body);
                     minutes = (if rest = [] then 0 else parseInt (after_colon rest))
                 in if validateTimezone hours minutes
                    then Some (sign * (hours * 3600000 + minutes * 60000))
                    else None)
           else Some 0)"

subsection \<open>parseISO\<close>

text \<open>
  With a zone designator the string names an instant, and the \<^verbatim>\<open>Date\<close> is
  \<^verbatim>\<open>new Date(timestamp + time + offset)\<close>. Without one the string is read as local time:
  the fields of \<^verbatim>\<open>new Date(timestamp + time)\<close> in UTC are set as local fields with
  \<^verbatim>\<open>setFullYear\<close> and \<^verbatim>\<open>setHours\<close> on \<^verbatim>\<open>new Date(0)\<close>, and each of the two calls leaves
  Invalid Date when the instant it reaches is one a \<^verbatim>\<open>Date\<close> cannot hold.
\<close>

definition parseISO_fixed :: "int \<Rightarrow> string \<Rightarrow> Date" where
  "parseISO_fixed tz argument =
     (case splitDateString argument of (dateString, timeString, timezoneString) \<Rightarrow>
        if dateString = [] then Invalid_Date
        else
          (case parseYear dateString of
             None \<Rightarrow> Invalid_Date
           | Some (y, restDateString) \<Rightarrow>
               (case parseDate restDateString y of
                  None \<Rightarrow> Invalid_Date
                | Some ymd \<Rightarrow>
                    (case (if timeString = [] then Some 0 else parseTime timeString) of
                       None \<Rightarrow> Invalid_Date
                     | Some time \<Rightarrow>
                         let timestamp = day_number ymd * 86400000
                         in if timezoneString \<noteq> [] then
                              (case parseTimezone timezoneString of
                                 None \<Rightarrow> Invalid_Date
                               | Some offset \<Rightarrow>
                                   (case TimeClip (plus (plus (of_int timestamp) time)
                                                     (of_int offset)) of
                                      None \<Rightarrow> Invalid_Date
                                    | Some t \<Rightarrow>
                                        Date (fields_at ymd (t - timestamp + tz * 60000))))
                            else
                              (case TimeClip (plus (of_int timestamp) time) of
                                 None \<Rightarrow> Invalid_Date
                               | Some dirtyDate \<Rightarrow>
                                   let local = dirtyDate - timestamp;
                                       midnight = timestamp + local div 86400000 * 86400000;
                                       afterSetFullYear =
                                         midnight + (tz * 60000) mod 86400000 - tz * 60000;
                                       afterSetHours = dirtyDate - tz * 60000
                                   in if \<bar>afterSetFullYear\<bar> \<le> 8640000000000000 \<and>
                                         \<bar>afterSetHours\<bar> \<le> 8640000000000000
                                      then Date (fields_at ymd local)
                                      else Invalid_Date)))))"

subsection \<open>format\<close>

text \<open>
  The tokens of the three patterns the charts pass. \<^verbatim>\<open>yyyy\<close> prints the year of the era,
  at least four digits; the others print two digits.
\<close>

definition token_yyyy :: "civil \<Rightarrow> string" where
  "token_yyyy c = addLeadingZeros (nat (if 0 < year c then year c else 1 - year c)) 4"

definition token_MM :: "civil \<Rightarrow> string" where
  "token_MM c = addLeadingZeros (month c) 2"

definition token_dd :: "civil \<Rightarrow> string" where
  "token_dd c = addLeadingZeros (day c) 2"

definition token_HH :: "civil \<Rightarrow> string" where
  "token_HH c = addLeadingZeros (hours c) 2"

definition token_mm :: "civil \<Rightarrow> string" where
  "token_mm c = addLeadingZeros (minutes c) 2"

text \<open>
  \<^verbatim>\<open>format\<close> throws \<^verbatim>\<open>RangeError: Invalid time value\<close> on Invalid Date. Only the three
  patterns of \<^verbatim>\<open>aggregateData\<close> are modelled; the model rejects any other pattern.
\<close>

definition format_fixed :: "Date \<Rightarrow> string \<Rightarrow> RangeError + string" where
  "format_fixed date formatStr =
     (case date of
        Invalid_Date \<Rightarrow> Inl RangeError
      | Date c \<Rightarrow>
          if formatStr = ''dd/MM HH:mm''
          then Inr (token_dd c @ ''/'' @ token_MM c @ '' '' @ token_HH c @ '':'' @ token_mm c)
          else if formatStr = ''yyyy-MM-dd''
          then Inr (token_yyyy c @ ''-'' @ token_MM c @ ''-'' @ token_dd c)
          else if formatStr = ''yyyy-MM''
          then Inr (token_yyyy c @ ''-'' @ token_MM c)
          else Inl RangeError)"

text \<open>The library on a machine whose zone is \<open>tz\<close> minutes east of UTC.\<close>

definition date_fns :: "int \<Rightarrow> Date datefns" where
  "date_fns tz = \<lparr>parseISO = parseISO_fixed tz, format = format_fixed\<rparr>"

subsection \<open>Written timestamps\<close>

text \<open>
  The notation in which the weather service and the backend write a time: the calendar
  date, \<^verbatim>\<open>T\<close>, the time of day to the second, and a zone designator that is absent,
  \<^verbatim>\<open>Z\<close>, or a sign with hours and minutes, as in \<^verbatim>\<open>2024-01-31T23:30:00+01:00\<close>. The record
  holds the numbers that are written, \<open>write_stamp\<close> is the string.
\<close>

datatype designator = No_designator | Zulu | East nat nat | West nat nat

record written =
  wyear :: nat
  wmonth :: nat
  wday :: nat
  whour :: nat
  wminute :: nat
  wsecond :: nat
  wzone :: designator

definition write_designator :: "designator \<Rightarrow> string" where
  "write_designator z =
     (case z of
        No_designator \<Rightarrow> []
      | Zulu \<Rightarrow> ''Z''
      | East h m \<Rightarrow> ''+'' @ addLeadingZeros h 2 @ '':'' @ addLeadingZeros m 2
      | West h m \<Rightarrow> ''-'' @ addLeadingZeros h 2 @ '':'' @ addLeadingZeros m 2)"

definition write_date :: "written \<Rightarrow> string" where
  "write_date w =
     addLeadingZeros (wyear w) 4 @ ''-'' @ addLeadingZeros (wmonth w) 2 @ ''-'' @
     addLeadingZeros (wday w) 2"

definition write_stamp :: "written \<Rightarrow> string" where
  "write_stamp w =
     write_date w @ ''T'' @ addLeadingZeros (whour w) 2 @ '':'' @
     addLeadingZeros (wminute w) 2 @ '':'' @ addLeadingZeros (wsecond w) 2 @
     write_designator (wzone w)"

text \<open>
  The written numbers name a date of the calendar in a year of four digits and a time of
  day, where \<^verbatim>\<open>24:00:00\<close> is the end of the day; the hours of an offset have two digits
  and its minutes are below 60.
\<close>

definition well_written :: "written \<Rightarrow> bool" where
  "well_written w \<longleftrightarrow>
     wyear w \<le> 9999 \<and> validateDate (int (wyear w)) (wmonth w) (wday w) \<and>
     (if whour w = 24 then wminute w = 0 \<and> wsecond w = 0
      else whour w < 24 \<and> wminute w < 60 \<and> wsecond w < 60) \<and>
     (case wzone w of
        East h m \<Rightarrow> h \<le> 99 \<and> m \<le> 59
      | West h m \<Rightarrow> h \<le> 99 \<and> m \<le> 59
      | _ \<Rightarrow> True)"

text \<open>
  The minutes east of UTC that the written time is meant in: the written offset, and the
  offset of the system zone when there is no designator.
\<close>

definition offset_east :: "int \<Rightarrow> designator \<Rightarrow> int" where
  "offset_east tz z =
     (case z of
        No_designator \<Rightarrow> tz
      | Zulu \<Rightarrow> 0
      | East h m \<Rightarrow> int (60 * h + m)
      | West h m \<Rightarrow> - int (60 * h + m))"

text \<open>
  The whole days by which the local date of the written instant, on a machine \<open>tz\<close>
  minutes east of UTC, lies after the written date.
\<close>

definition days_carried :: "int \<Rightarrow> written \<Rightarrow> int" where
  "days_carried tz w =
     (int (60 * whour w + wminute w) + tz - offset_east tz (wzone w)) div 1440"

text \<open>A date in the notations of the two keys: the year of the era, the month, the day.\<close>

definition day_key :: "int \<times> nat \<times> nat \<Rightarrow> string" where
  "day_key ymd =
     (case ymd of (y, m, d) \<Rightarrow>
        addLeadingZeros (nat (if 0 < y then y else 1 - y)) 4 @ ''-'' @ addLeadingZeros m 2 @
        ''-'' @ addLeadingZeros d 2)"

definition month_key :: "int \<times> nat \<times> nat \<Rightarrow> string" where
  "month_key ymd =
     (case ymd of (y, m, d) \<Rightarrow>
        addLeadingZeros (nat (if 0 < y then y else 1 - y)) 4 @ ''-'' @ addLeadingZeros m 2)"

text \<open>
  Chronological order of two points on a machine \<open>tz\<close> minutes east of UTC: both
  timestamps parse, and the first instant is not after the second. Under one zone offset
  the instants are ordered as their local fields.
\<close>

definition civil_fields :: "civil \<Rightarrow> int \<times> nat \<times> nat \<times> nat \<times> nat \<times> nat \<times> nat" where
  "civil_fields c = (year c, month c, day c, hours c, minutes c, seconds c, milliseconds c)"

definition not_later :: "int \<Rightarrow> 'n TimeSeriesPoint \<Rightarrow> 'n TimeSeriesPoint \<Rightarrow> bool" where
  "not_later tz p q =
     (case (parseISO_fixed tz (timestamp p), parseISO_fixed tz (timestamp q)) of
        (Date a, Date b) \<Rightarrow> civil_fields a \<le> civil_fields b
      | _ \<Rightarrow> False)"

subsection \<open>Example series\<close>

text \<open>
  An hourly forecast over two days, 48 points: on the first day the cloud cover rises by
  one per hour and the lightning probability is 10, on the second the cloud cover is 50
  and the lightning probability rises by two per hour.
\<close>

definition hour_stamp :: "string \<Rightarrow> nat \<Rightarrow> string" where
  "hour_stamp d h = d @ ''T'' @ addLeadingZeros h 2 @ '':00:00Z''"

definition day_hours :: "nat list" where
  "day_hours =
     [0, 1, 2, 3, 4, 5, 6, 7, 8, 9, 10, 11, 12, 13, 14, 15, 16, 17, 18, 19, 20, 21, 22, 23]"

definition two_days :: "real TimeSeriesPoint list" where
  "two_days =
     map (\<lambda>h. \<lparr>timestamp = hour_stamp ''2024-06-01'' h,
                cloud_cover_pct = real h, lightning_prob_pct = 10\<rparr>) day_hours @
     map (\<lambda>h. \<lparr>timestamp = hour_stamp ''2024-06-02'' h,
                cloud_cover_pct = 50, lightning_prob_pct = real (2 * h)\<rparr>) day_hours"

text \<open>Its daily aggregation on a machine in UTC, and on a machine one hour east of UTC.\<close>

definition two_days_daily :: "real ChartDataPoint list" where
  "two_days_daily =
     [\<lparr>timestamp = ''2024-06-01'', cloud_cover_pct = 23 / 2, lightning_prob_pct = 10,
       label = ''2024-06-01''\<rparr>,
      \<lparr>timestamp = ''2024-06-02'', cloud_cover_pct = 50, lightning_prob_pct = 23,
       label = ''2024-06-02''\<rparr>]"


text \<open>The same forecast with timestamps that carry no zone designator.\<close>

definition local_hour_stamp :: "string \<Rightarrow> nat \<Rightarrow> string" where
  "local_hour_stamp d h = d @ ''T'' @ addLeadingZeros h 2 @ '':00:00''"

definition two_local_days :: "real TimeSeriesPoint list" where
  "two_local_days =
     map (\<lambda>h. \<lparr>timestamp = local_hour_stamp ''2024-06-01'' h,
                cloud_cover_pct = real h, lightning_prob_pct = 10\<rparr>) day_hours @
     map (\<lambda>h. \<lparr>timestamp = local_hour_stamp ''2024-06-02'' h,
                cloud_cover_pct = 50, lightning_prob_pct = real (2 * h)\<rparr>) day_hours"

definition morning :: "real TimeSeriesPoint list" where
  "morning =
     map (\<lambda>h. \<lparr>timestamp = hour_stamp ''2024-06-01'' h,
                cloud_cover_pct = real h, lightning_prob_pct = 10\<rparr>) [6, 7, 8]"

definition late_evening :: "real TimeSeriesPoint" where
  "late_evening =
     \<lparr>timestamp = ''2024-01-31T23:30:00Z'', cloud_cover_pct = 75, lightning_prob_pct = 5\<rparr>"

section \<open>JSON values\<close>

text \<open>
  What \<^verbatim>\<open>Response.json()\<close> can return, and \<^verbatim>\<open>undefined\<close>. The pattern panel receives such a
  value under the type \<^verbatim>\<open>Record<string, unknown>\<close> and casts it without a check.
\<close>

datatype jsval =
    Undefined
  | Null
  | Bool bool
  | Num real
  | Str string
  | Arr "jsval list"
  | Obj "(string \<times> jsval) list"

definition truthy :: "jsval \<Rightarrow> bool" where
  "truthy v =
     (case v of
        Undefined \<Rightarrow> False
      | Null \<Rightarrow> False
      | Bool b \<Rightarrow> b
      | Num x \<Rightarrow> x \<noteq> 0
      | Str s \<Rightarrow> s \<noteq> []
      | Arr xs \<Rightarrow> True
      | Obj kvs \<Rightarrow> True)"

definition nullish :: "jsval \<Rightarrow> bool" where
  "nullish v \<longleftrightarrow> v = Undefined \<or> v = Null"

text \<open>
  The value of the property \<open>k\<close> of a value that is neither \<^verbatim>\<open>null\<close> nor \<^verbatim>\<open>undefined\<close>, for
  the data properties the program reads (\<^verbatim>\<open>patterns\<close>, \<^verbatim>\<open>length\<close>, \<^verbatim>\<open>summary\<close>,
  \<^verbatim>\<open>convective_risk\<close>, \<^verbatim>\<open>name\<close>, \<^verbatim>\<open>probability\<close>): an own property of an object, the
  length of an array or a string, and \<^verbatim>\<open>undefined\<close> otherwise.
\<close>

definition property :: "jsval \<Rightarrow> string \<Rightarrow> jsval" where
  "property v k =
     (case v of
        Obj kvs \<Rightarrow> (case map_of kvs k of Some x \<Rightarrow> x | None \<Rightarrow> Undefined)
      | Arr xs \<Rightarrow> if k = ''length'' then Num (real (length xs)) else Undefined
      | Str s \<Rightarrow> if k = ''length'' then Num (real (length s)) else Undefined
      | _ \<Rightarrow> Undefined)"

text \<open>\<^verbatim>\<open>v.k\<close> throws on \<^verbatim>\<open>null\<close> and \<^verbatim>\<open>undefined\<close>; \<^verbatim>\<open>v?.k\<close> gives \<^verbatim>\<open>undefined\<close> there.\<close>

definition get :: "jsval \<Rightarrow> string \<Rightarrow> TypeError + jsval" where
  "get v k = (if nullish v then Inl TypeError else Inr (property v k))"

definition opt :: "jsval \<Rightarrow> string \<Rightarrow> jsval" where
  "opt v k = (if nullish v then Undefined else property v k)"

section \<open>The pattern panel of \<^verbatim>\<open>AIPatternsPanel.tsx\<close>\<close>

text \<open>
  What the component returns: \<open>None\<close> for \<^verbatim>\<open>null\<close>, or the section with the summary, the
  convective risk and one card per pattern, a name and a probability. The numbers are kept
  as they are; their printing with \<^verbatim>\<open>toFixed\<close> is not modelled.
\<close>

datatype element = Section jsval jsval "(string \<times> jsval) list"

text \<open>\<^verbatim>\<open>name.replace(/_/g, ' ')\<close>\<close>

definition replace_underscores :: "string \<Rightarrow> string" where
  "replace_underscores s = map (\<lambda>c. if c = CHR ''_'' then CHR '' '' else c) s"

text \<open>
  The callback of \<^verbatim>\<open>data.patterns.map\<close>: reading \<^verbatim>\<open>p.name\<close> throws when \<^verbatim>\<open>p\<close> is \<^verbatim>\<open>null\<close>, and
  only a string has the method \<^verbatim>\<open>replace\<close>.
\<close>

definition pattern_card :: "jsval \<Rightarrow> TypeError + string \<times> jsval" where
  "pattern_card p =
     (case get p ''name'' of
        Inl e \<Rightarrow> Inl e
      | Inr (Str name) \<Rightarrow> Inr (replace_underscores name, property p ''probability'')
      | Inr _ \<Rightarrow> Inl TypeError)"

fun pattern_cards :: "jsval list \<Rightarrow> TypeError + (string \<times> jsval) list" where
  "pattern_cards [] = Inr []"
| "pattern_cards (p # ps) =
     (case pattern_card p of
        Inl e \<Rightarrow> Inl e
      | Inr c \<Rightarrow> (case pattern_cards ps of Inl e \<Rightarrow> Inl e | Inr cs \<Rightarrow> Inr (c # cs)))"

text \<open>Only an array has the method \<^verbatim>\<open>map\<close>.\<close>

definition AIPatternsPanel :: "jsval \<Rightarrow> TypeError + element option" where
  "AIPatternsPanel patterns =
     (let data = patterns in
      if \<not> truthy (opt (opt data ''patterns'') ''length'') then Inr None
      else (case property data ''patterns'' of
              Arr ps \<Rightarrow>
                (case pattern_cards ps of
                   Inl e \<Rightarrow> Inl e
                 | Inr cards \<Rightarrow>
                     Inr (Some (Section (property data ''summary'') (property data ''convective_risk'')
                                  cards)))
            | _ \<Rightarrow> Inl TypeError))"

section \<open>The application state of \<^verbatim>\<open>App.tsx\<close>\<close>

text \<open>
  A thrown value: an \<^verbatim>\<open>Error\<close> with its message, or something else. A \<^verbatim>\<open>fetch\<close> either
  rejects or resolves to a response, which has a status flag and a body that \<^verbatim>\<open>json()\<close>
  parses or rejects.
\<close>

datatype thrown = Error string | Other_thrown

datatype 'b Response = Response (ok: bool) (json: "thrown + 'b")

datatype 'b settled = Rejected thrown | Fulfilled "'b Response"

text \<open>\<^verbatim>\<open>WeatherData\<close> of \<^verbatim>\<open>types.ts\<close>.\<close>

record 'n WeatherData =
  approvedTime :: "string option"
  referenceTime :: "string option"
  longitude :: 'n
  latitude :: 'n
  location :: "string option"
  time_series :: "'n TimeSeriesPoint list"

text \<open>The four state variables of \<^verbatim>\<open>App\<close>.\<close>

record 'n App_state =
  weatherData :: "'n WeatherData option"
  aiPatterns :: jsval
  loading :: bool
  error :: "string option"

definition initial_App :: "'n App_state" where
  "initial_App = \<lparr>weatherData = None, aiPatterns = Null, loading = False, error = None\<rparr>"

text \<open>
  \<^verbatim>\<open>Promise.all\<close> of the two requests rejects with the reason of the request that rejects
  first; \<open>ai_first\<close> says that the second request settles before the first.
\<close>

definition Promise_all :: "bool \<Rightarrow> 'a settled \<Rightarrow> 'b settled \<Rightarrow> thrown + 'a Response \<times> 'b Response" where
  "Promise_all ai_first weatherRes aiRes =
     (case (weatherRes, aiRes) of
        (Fulfilled w, Fulfilled a) \<Rightarrow> Inr (w, a)
      | (Rejected e, Fulfilled a) \<Rightarrow> Inl e
      | (Fulfilled w, Rejected e) \<Rightarrow> Inl e
      | (Rejected e1, Rejected e2) \<Rightarrow> Inl (if ai_first then e2 else e1))"

text \<open>The \<^verbatim>\<open>try\<close> block: the state it reaches, or the state at the throw and what was thrown.\<close>

definition fetch_try :: "bool \<Rightarrow> 'n WeatherData settled \<Rightarrow> jsval settled \<Rightarrow> 'n App_state
    \<Rightarrow> ('n App_state \<times> thrown) + 'n App_state" where
  "fetch_try ai_first weatherFetch aiFetch s =
     (case Promise_all ai_first weatherFetch aiFetch of
        Inl e \<Rightarrow> Inl (s, e)
      | Inr (weatherRes, aiRes) \<Rightarrow>
          if \<not> ok weatherRes then Inl (s, Error ''Failed to fetch weather'')
          else (case json weatherRes of
                  Inl e \<Rightarrow> Inl (s, e)
                | Inr weather \<Rightarrow>
                    let s1 = s\<lparr>weatherData := Some weather\<rparr> in
                    if ok aiRes then
                      (case json aiRes of
                         Inl e \<Rightarrow> Inl (s1, e)
                       | Inr ai \<Rightarrow> Inr (s1\<lparr>aiPatterns := ai\<rparr>))
                    else Inr (s1\<lparr>aiPatterns := Null\<rparr>)))"

definition message :: "thrown \<Rightarrow> string" where
  "message e = (case e of Error m \<Rightarrow> m | Other_thrown \<Rightarrow> ''Unknown error'')"

text \<open>
  \<^verbatim>\<open>fetchWeatherByCoords\<close>, from the call to the end of its \<^verbatim>\<open>finally\<close> block, given how the
  two requests settle.
\<close>

definition fetchWeatherByCoords :: "bool \<Rightarrow> 'n WeatherData settled \<Rightarrow> jsval settled
    \<Rightarrow> 'n App_state \<Rightarrow> 'n App_state" where
  "fetchWeatherByCoords ai_first weatherFetch aiFetch s =
     (let s0 = s\<lparr>loading := True, error := None\<rparr>;
          s2 = (case fetch_try ai_first weatherFetch aiFetch s0 of
                  Inr s1 \<Rightarrow> s1
                | Inl (s1, e) \<Rightarrow>
                    s1\<lparr>error := Some (message e), weatherData := None, aiPatterns := Null\<rparr>)
      in s2\<lparr>loading := False\<rparr>)"

text \<open>
  What \<^verbatim>\<open>App\<close> renders below the search bar: the error banner, the loading notice, the
  charts with their data, the pattern panel with what it returns, the empty state.
\<close>

record 'n App_view =
  error_banner :: "string option"
  loading_notice :: bool
  charts :: "'n WeatherData option"
  patterns_panel :: "(TypeError + element option) option"
  empty_state :: bool

definition App_view :: "'n App_state \<Rightarrow> 'n App_view" where
  "App_view s =
     (let shown_error = (case error s of Some e \<Rightarrow> if e \<noteq> [] then Some e else None
                         | None \<Rightarrow> None)
      in \<lparr>error_banner = shown_error,
          loading_notice = loading s,
          charts = (if weatherData s \<noteq> None \<and> \<not> loading s then weatherData s else None),
          patterns_panel =
            (if weatherData s \<noteq> None \<and> \<not> loading s \<and> truthy (aiPatterns s)
             then Some (AIPatternsPanel (aiPatterns s)) else None),
          empty_state = (weatherData s = None \<and> \<not> loading s \<and> shown_error = None)\<rparr>)"

text \<open>A forecast for Stockholm, and a pattern result of the backend.\<close>

definition stockholm :: "real WeatherData" where
  "stockholm =
     \<lparr>approvedTime = Some ''2024-06-01T00:00:00Z'', referenceTime = Some ''2024-06-01T00:00:00Z'',
      longitude = 18, latitude = 593 / 10, location = Some ''Stockholm'',
      time_series = two_days\<rparr>"

definition stable_day :: jsval where
  "stable_day =
     Obj [(''patterns'',
           Arr [Obj [(''name'', Str ''stable_atmosphere''), (''probability'', Num (7 / 10))],
                Obj [(''name'', Str ''convective_risk''), (''probability'', Num (3 / 10))]]),
          (''convective_risk'', Num (3 / 10)),
          (''summary'', Str ''Stable conditions'')]"

text \<open>Values that have no length the guard of the panel would take for true.\<close>

definition without_length :: "jsval \<Rightarrow> bool" where
  "without_length v =
     (case v of
        Undefined \<Rightarrow> True
      | Null \<Rightarrow> True
      | Bool b \<Rightarrow> True
      | Num x \<Rightarrow> True
      | Str s \<Rightarrow> s = []
      | Arr xs \<Rightarrow> xs = []
      | Obj kvs \<Rightarrow> \<not> truthy (property (Obj kvs) ''length''))"

section \<open>The search bar of \<^verbatim>\<open>SearchBar.tsx\<close>\<close>

text \<open>
  \<^verbatim>\<open>String.prototype.trim\<close> removes white space at both ends. A string is a list of 8-bit
  characters here; the white space among them is tab, line feed, vertical tab, form feed,
  carriage return, space and the no-break space.
\<close>

definition is_space :: "char \<Rightarrow> bool" where
  "is_space c \<longleftrightarrow> (of_char c :: nat) \<in> {9, 10, 11, 12, 13, 32, 160}"

definition trim :: "string \<Rightarrow> string" where
  "trim s = rev (dropWhile is_space (rev (dropWhile is_space s)))"

record LocationResult =
  lat :: real
  lon :: real
  display_name :: string
  type :: "string option"
  importance :: "real option"

text \<open>
  The state of the component, and what it has done so far. \<open>debounce\<close> is the pending
  timer, with the query that the \<^verbatim>\<open>searchLocations\<close> of its callback closes over;
  \<open>has_cleanup\<close> says that the last run of the effect returned a cleanup function;
  \<open>requests\<close> lists the queries for which \<^verbatim>\<open>GET /api/search\<close> was issued and \<open>searches\<close>
  the calls of \<^verbatim>\<open>onSearch\<close>, oldest first.
\<close>

record SearchBar_state =
  query :: string
  results :: "LocationResult list"
  showResults :: bool
  selectedResult :: "LocationResult option"
  debounce :: "string option"
  has_cleanup :: bool
  requests :: "string list"
  searches :: "(string \<times> LocationResult option) list"

text \<open>The state after the first render: the effect has run once, on the empty query.\<close>

definition initial_SearchBar :: SearchBar_state where
  "initial_SearchBar =
     \<lparr>query = [], results = [], showResults = False, selectedResult = None, debounce = None,
      has_cleanup = False, requests = [], searches = []\<rparr>"

text \<open>
  \<^verbatim>\<open>searchLocations\<close> up to its \<^verbatim>\<open>fetch\<close>, for the query \<open>q\<close> of its closure. The request
  carries \<^verbatim>\<open>encodeURIComponent(q.trim())\<close>.
\<close>

definition searchLocations :: "string \<Rightarrow> SearchBar_state \<Rightarrow> SearchBar_state" where
  "searchLocations q s =
     (if length (trim q) < 2 then s else s\<lparr>requests := requests s @ [q]\<rparr>)"

text \<open>How the request of \<^verbatim>\<open>searchLocations\<close> ends, and the rest of the function.\<close>

datatype search_outcome =
    Fetch_rejected
  | Not_ok
  | Invalid_json
  | Ok_results "LocationResult list option"

definition search_response :: "search_outcome \<Rightarrow> SearchBar_state \<Rightarrow> SearchBar_state" where
  "search_response outcome s =
     (case outcome of
        Not_ok \<Rightarrow> s
      | Fetch_rejected \<Rightarrow> s\<lparr>results := []\<rparr>
      | Invalid_json \<Rightarrow> s\<lparr>results := []\<rparr>
      | Ok_results r \<Rightarrow>
          s\<lparr>results := (case r of Some rs \<Rightarrow> rs | None \<Rightarrow> []), showResults := True,
            selectedResult := None\<rparr>)"

text \<open>
  The effect on \<^verbatim>\<open>query\<close>: React first runs the cleanup that the previous run returned, if
  any, then the body. A new timer replaces the one the ref holds.
\<close>

definition query_effect :: "SearchBar_state \<Rightarrow> SearchBar_state" where
  "query_effect s =
     (let s1 = (if has_cleanup s then s\<lparr>debounce := None\<rparr> else s) in
      if length (trim (query s1)) < 2
      then s1\<lparr>results := [], showResults := False, has_cleanup := False\<rparr>
      else s1\<lparr>debounce := Some (query s1), has_cleanup := True\<rparr>)"

text \<open>\<^verbatim>\<open>setQuery\<close>: the effect runs again only when the value changes.\<close>

definition setQuery :: "string \<Rightarrow> SearchBar_state \<Rightarrow> SearchBar_state" where
  "setQuery v s = (if v = query s then s else query_effect (s\<lparr>query := v\<rparr>))"

definition handleSubmit :: "SearchBar_state \<Rightarrow> SearchBar_state" where
  "handleSubmit s =
     (if trim (query s) = [] then s
      else s\<lparr>searches := searches s @ [(query s, selectedResult s)], showResults := False\<rparr>)"

definition handleSelect :: "LocationResult \<Rightarrow> SearchBar_state \<Rightarrow> SearchBar_state" where
  "handleSelect r s =
     setQuery (display_name r)
       (s\<lparr>selectedResult := Some r, showResults := False,
          searches := searches s @ [(display_name r, Some r)]\<rparr>)"

text \<open>
  What can happen to the component: the user types, the debounce timer fires, a search
  request ends, the form is submitted, a suggestion is clicked, the input gains or loses
  the focus.
\<close>

datatype event =
    Change string
  | Timer
  | Search_response search_outcome
  | Submit
  | Select LocationResult
  | Focus
  | Blur

definition step :: "SearchBar_state \<Rightarrow> event \<Rightarrow> SearchBar_state" where
  "step s ev =
     (case ev of
        Change v \<Rightarrow> setQuery v (s\<lparr>showResults := False\<rparr>)
      | Timer \<Rightarrow>
          (case debounce s of
             None \<Rightarrow> s
           | Some q \<Rightarrow> searchLocations q (s\<lparr>debounce := None\<rparr>))
      | Search_response outcome \<Rightarrow> search_response outcome s
      | Submit \<Rightarrow> handleSubmit s
      | Select r \<Rightarrow> handleSelect r s
      | Focus \<Rightarrow> (if results s \<noteq> [] then s\<lparr>showResults := True\<rparr> else s)
      | Blur \<Rightarrow> s\<lparr>showResults := False\<rparr>)"

definition run :: "event list \<Rightarrow> SearchBar_state" where
  "run evs = foldl step initial_SearchBar evs"

text \<open>Every request issued so far was for a query of trimmed length 2 or more.\<close>

definition guarded :: "SearchBar_state \<Rightarrow> bool" where
  "guarded s \<longleftrightarrow> (\<forall>q\<in>set (requests s). 2 \<le> length (trim q))"

section \<open>The location resolver\<close>

text \<open>
  Modelled from the spec: the location resolver of the backend (\<^verbatim>\<open>geocoding.py\<close> and the
  route that calls it), which is not among the sources. The spec gives its contract in
  three steps: a query that is two decimal numbers separated by a comma and/or white space,
  both in range, is returned as coordinates without a call of the geocoding service; any
  other query is handed to the service as it is, and its candidates are returned by
  descending importance (a single candidate as coordinates, when the caller prefers that);
  an empty answer is the error \<^verbatim>\<open>LocationNotFoundError\<close>.
\<close>

record Coordinates =
  latitude :: real
  longitude :: real

record LocationCandidate = Coordinates +
  display_name :: string
  importance :: real
  kind :: "string option"

datatype LocationNotFoundError = LocationNotFoundError

datatype resolution = Direct Coordinates | Candidates "LocationCandidate list"

text \<open>
  Modelled from the spec: a decimal number is an optional sign, one or more digits, and
  optionally a point followed by one or more digits.
\<close>

definition digits_value :: "string \<Rightarrow> nat" where
  "digits_value s = foldl (\<lambda>acc c. 10 * acc + digit_val c) 0 s"

definition parse_unsigned :: "string \<Rightarrow> real option" where
  "parse_unsigned s =
     (let whole = takeWhile is_digit s; rest = dropWhile is_digit s in
      if whole = [] then None
      else if rest = [] then Some (real (digits_value whole))
      else if hd rest = CHR ''.'' \<and> tl rest \<noteq> [] \<and> list_all is_digit (tl rest)
      then Some (real (digits_value whole) +
                 real (digits_value (tl rest)) / 10 ^ length (tl rest))
      else None)"

definition parse_decimal :: "string \<Rightarrow> real option" where
  "parse_decimal s =
     (if s \<noteq> [] \<and> hd s = CHR ''-'' then map_option uminus (parse_unsigned (tl s))
      else if s \<noteq> [] \<and> hd s = CHR ''+'' then parse_unsigned (tl s)
      else parse_unsigned s)"

text \<open>
  Modelled from the spec: a separator is a comma and/or white space, that is, white space
  with at most one comma in it, and not empty.
\<close>

definition is_separator_char :: "char \<Rightarrow> bool" where
  "is_separator_char c \<longleftrightarrow> c = CHR '','' \<or> is_space c"

definition is_separator :: "string \<Rightarrow> bool" where
  "is_separator s \<longleftrightarrow>
     s \<noteq> [] \<and> list_all is_separator_char s \<and> length (filter (\<lambda>c. c = CHR '','') s) \<le> 1"

definition parse_pair :: "string \<Rightarrow> (real \<times> real) option" where
  "parse_pair q =
     (let first = takeWhile (\<lambda>c. \<not> is_separator_char c) q;
          rest = dropWhile (\<lambda>c. \<not> is_separator_char c) q;
          sep = takeWhile is_separator_char rest;
          second = dropWhile is_separator_char rest
      in if is_separator sep then
           (case (parse_decimal first, parse_decimal second) of
              (Some x, Some y) \<Rightarrow> Some (x, y)
            | _ \<Rightarrow> None)
         else None)"

definition in_range :: "real \<times> real \<Rightarrow> bool" where
  "in_range c \<longleftrightarrow> - 90 \<le> fst c \<and> fst c \<le> 90 \<and> - 180 \<le> snd c \<and> snd c \<le> 180"

text \<open>
  Modelled from the spec: the second and third step. The service is called once, with the
  query as it is; the candidates are ordered by descending importance.
\<close>

definition geocoded :: "(string \<Rightarrow> LocationCandidate list) \<Rightarrow> bool \<Rightarrow> string
    \<Rightarrow> (LocationNotFoundError + resolution) \<times> string list" where
  "geocoded geocode pick_single q =
     (let candidates = sort_key (\<lambda>c. - LocationCandidate.importance c) (geocode q)
      in (if candidates = [] then Inl LocationNotFoundError
          else if pick_single \<and> length candidates = 1
          then Inr (Direct \<lparr>latitude = latitude (hd candidates),
                             longitude = longitude (hd candidates)\<rparr>)
          else Inr (Candidates candidates),
          [q]))"

text \<open>
  Modelled from the spec: the resolver, with the geocoding service and the caller's
  preference as parameters. It returns its result and the queries it sent to the service.
\<close>

definition resolve :: "(string \<Rightarrow> LocationCandidate list) \<Rightarrow> bool \<Rightarrow> string
    \<Rightarrow> (LocationNotFoundError + resolution) \<times> string list" where
  "resolve geocode pick_single q =
     (case parse_pair q of
        Some c \<Rightarrow>
          if in_range c then (Inr (Direct \<lparr>latitude = fst c, longitude = snd c\<rparr>), [])
          else geocoded geocode pick_single q
      | None \<Rightarrow> geocoded geocode pick_single q)"

section \<open>Properties of the date functions\<close>

subsection \<open>Numbers\<close>

lemma bit_length_le: "n < 2 ^ k \<Longrightarrow> bit_length n \<le> k"
proof (induction k arbitrary: n)
  case 0
  then show ?case by (simp add: bit_length.simps)
next
  case (Suc k)
  show ?case
  proof (cases "n \<le> 0")
    case True
    then show ?thesis by (simp add: bit_length.simps)
  next
    case False
    from Suc.prems have "n div 2 < 2 ^ k" by simp
    then have "bit_length (n div 2) \<le> k" by (rule Suc.IH)
    with False show ?thesis by (subst bit_length.simps) simp
  qed
qed

lemma bit_length_pos: "0 < n \<Longrightarrow> 0 < bit_length n"
  by (subst bit_length.simps) simp

lemma round_half_even_int: "round_half_even (of_int m) = m"
  by (simp add: round_half_even_def)

text \<open>An integer below \<open>2\<^sup>5\<^sup>3\<close> is a double.\<close>

lemma nearest_double_int:
  assumes "\<bar>n\<bar> < 2 ^ 53"
  shows "nearest_double (of_int n) = of_int n"
proof (cases "n = 0")
  case True
  then show ?thesis by (simp add: nearest_double_def)
next
  case False
  define a :: rat where "a = \<bar>of_int n\<bar>"
  have a: "a = of_int \<bar>n\<bar>" by (simp add: a_def)
  from False have one: "1 \<le> a" unfolding a by (simp add: )
  have fl: "\<lfloor>a\<rfloor> = \<bar>n\<bar>" by (simp only: a floor_of_int)
  define e where "e = exponent a"
  have e: "e = int (bit_length \<bar>n\<bar>) - 1" using one by (simp add: e_def exponent_def fl)
  from assms have "bit_length \<bar>n\<bar> \<le> 53" by (rule bit_length_le)
  moreover from False have "0 < bit_length \<bar>n\<bar>" by (intro bit_length_pos) simp
  ultimately have eb: "0 \<le> e" "e \<le> 52" unfolding e by simp_all
  define k where "k = nat (52 - e)"
  have ulp: "pow2 (max e (- 1022) - 52) = 1 / 2 ^ k"
    using eb by (auto simp: pow2_def k_def max_def)
  have "a / (1 / 2 ^ k) = of_int (\<bar>n\<bar> * 2 ^ k)" unfolding a by simp
  then have r: "round_half_even (a / (1 / 2 ^ k)) = \<bar>n\<bar> * 2 ^ k"
    by (simp only: round_half_even_int)
  have "nearest_double (of_int n) = sgn (of_int n) * of_int (\<bar>n\<bar> * 2 ^ k) * (1 / 2 ^ k)"
    using False r by (simp add: nearest_double_def Let_def a_def [symmetric] e_def [symmetric] ulp)
  also have "\<dots> = sgn (of_int n) * of_int \<bar>n\<bar>" by simp
  also have "\<dots> = of_int n" by (simp add: sgn_if)
  finally show ?thesis .
qed

subsection \<open>Splitting a string\<close>

lemma digit_class:
  assumes "is_digit c"
  shows "\<not> is_dateTimeDelimiter c" "\<not> is_timeZoneDelimiter c" "\<not> is_zone_start c"
    "\<not> is_line_terminator c" "\<not> is_sign c" "\<not> is_fraction_mark c"
    "c \<noteq> CHR '':''" "c \<noteq> CHR ''-''" "c \<noteq> CHR ''W''"
  using assms
  by (auto simp: is_digit_def is_dateTimeDelimiter_def is_timeZoneDelimiter_def
      is_zone_start_def is_line_terminator_def is_sign_def is_fraction_mark_def)

lemma timezone_token_append:
  assumes "\<forall>c\<in>set t. \<not> is_zone_start c"
    and "z = [] \<or> is_zone_start (hd z) \<and> \<not> list_ex is_line_terminator (tl z)"
  shows "timezone_token (t @ z) = z"
  using assms(1)
proof (induction t)
  case Nil
  from assms(2) show ?case by (cases z) auto
next
  case (Cons c t)
  then show ?case by simp
qed

lemma remove_first_append:
  assumes "\<forall>c\<in>set t. \<not> is_zone_start c" and "z \<noteq> []" and "is_zone_start (hd z)"
  shows "remove_first z (t @ z) = t"
  using assms(1)
proof (induction t)
  case Nil
  from assms(2) show ?case by (cases z) auto
next
  case (Cons c t)
  from assms(2) obtain z0 zs where z: "z = z0 # zs" by (cases z) auto
  with assms(3) Cons.prems have "c \<noteq> z0" by auto
  with Cons z show ?case by auto
qed

lemma splitDateString_parts:
  assumes d: "\<forall>c\<in>set date. \<not> is_dateTimeDelimiter c \<and> \<not> is_timeZoneDelimiter c \<and> c \<noteq> CHR '':''"
    and t: "\<forall>c\<in>set time. \<not> is_dateTimeDelimiter c \<and> \<not> is_zone_start c"
    and z: "z = [] \<or> is_zone_start (hd z) \<and> \<not> list_ex is_line_terminator (tl z)"
    and zd: "\<forall>c\<in>set z. \<not> is_dateTimeDelimiter c"
  shows "splitDateString (date @ CHR ''T'' # time @ z) = (date, time, z)"
proof -
  let ?s = "date @ CHR ''T'' # time @ z"
  have a0: "takeWhile (\<lambda>c. \<not> is_dateTimeDelimiter c) ?s = date"
    using d by (simp add: takeWhile_append2 is_dateTimeDelimiter_def)
  have n: "filter is_dateTimeDelimiter ?s = [CHR ''T'']"
    using d t zd by (simp add: filter_empty_conv is_dateTimeDelimiter_def)
  have c: "CHR '':'' \<notin> set date" using d by auto
  have e: "\<not> list_ex is_timeZoneDelimiter date" using d by (simp add: list_ex_iff)
  have t': "\<forall>c\<in>set time. \<not> is_zone_start c" using t by simp
  have tok: "timezone_token (time @ z) = z" by (rule timezone_token_append [OF t' z])
  show ?thesis
  proof (cases "z = []")
    case True
    then show ?thesis
      unfolding splitDateString_def a0 n using c e tok by (simp add: Let_def)
  next
    case False
    with z have "is_zone_start (hd z)" by simp
    from remove_first_append [OF t' False this] False show ?thesis
      unfolding splitDateString_def a0 n using c e tok by (simp add: Let_def)
  qed
qed

subsection \<open>Digits\<close>

lemma digit_char_numerals:
  "digit_char 0 = CHR ''0''" "digit_char (Suc 0) = CHR ''1''" "digit_char 2 = CHR ''2''"
  "digit_char 3 = CHR ''3''" "digit_char 4 = CHR ''4''" "digit_char 5 = CHR ''5''"
  "digit_char 6 = CHR ''6''" "digit_char 7 = CHR ''7''" "digit_char 8 = CHR ''8''"
  "digit_char 9 = CHR ''9''"
  by (simp_all add: digit_char_def char_of_eq_iff)

lemma is_digit_digit_char: "n < 10 \<Longrightarrow> is_digit (digit_char n)"
  by (simp add: is_digit_def digit_char_def)

lemma digit_val_digit_char: "n < 10 \<Longrightarrow> digit_val (digit_char n) = n"
  by (simp add: digit_val_def digit_char_def)

lemma number_to_string_1: "n < 10 \<Longrightarrow> number_to_string n = [digit_char n]"
  by (simp add: number_to_string.simps)

lemma number_to_string_2:
  "10 \<le> n \<Longrightarrow> n < 100 \<Longrightarrow> number_to_string n = [digit_char (n div 10), digit_char (n mod 10)]"
  by (subst number_to_string.simps) (simp add: number_to_string_1)

lemma number_to_string_3:
  "100 \<le> n \<Longrightarrow> n < 1000 \<Longrightarrow>
   number_to_string n = [digit_char (n div 100), digit_char (n div 10 mod 10), digit_char (n mod 10)]"
  by (subst number_to_string.simps) (simp add: number_to_string_2 div_mult2_eq [symmetric])

lemma number_to_string_4:
  "1000 \<le> n \<Longrightarrow> n < 10000 \<Longrightarrow>
   number_to_string n =
     [digit_char (n div 1000), digit_char (n div 100 mod 10), digit_char (n div 10 mod 10),
      digit_char (n mod 10)]"
  by (subst number_to_string.simps) (simp add: number_to_string_3 div_mult2_eq [symmetric])

lemma addLeadingZeros_2:
  "n < 100 \<Longrightarrow> addLeadingZeros n 2 = [digit_char (n div 10), digit_char (n mod 10)]"
  by (cases "n < 10")
     (simp_all add: addLeadingZeros_def number_to_string_1 number_to_string_2
        digit_char_numerals)

lemma addLeadingZeros_4:
  assumes "n < 10000"
  shows "addLeadingZeros n 4 =
     [digit_char (n div 1000), digit_char (n div 100 mod 10), digit_char (n div 10 mod 10),
      digit_char (n mod 10)]"
proof -
  consider "n < 10" | "10 \<le> n" "n < 100" | "100 \<le> n" "n < 1000" | "1000 \<le> n"
    by linarith
  then show ?thesis
  proof cases
    case 1
    then show ?thesis
      by (simp add: addLeadingZeros_def number_to_string_1 digit_char_numerals numeral_3_eq_3)
  next
    case 2
    then show ?thesis
      by (simp add: addLeadingZeros_def number_to_string_2 digit_char_numerals numeral_2_eq_2)
  next
    case 3
    then show ?thesis
      by (simp add: addLeadingZeros_def number_to_string_3 digit_char_numerals)
  next
    case 4
    with assms show ?thesis by (simp add: addLeadingZeros_def number_to_string_4)
  qed
qed

text \<open>A number printed with two or four digits, and read back.\<close>

lemma two_digits:
  assumes "n < 100"
  obtains a b where "addLeadingZeros n 2 = [a, b]" and "is_digit a" and "is_digit b"
    and "parseInt [a, b] = int n"
proof
  show "addLeadingZeros n 2 = [digit_char (n div 10), digit_char (n mod 10)]"
    using assms by (rule addLeadingZeros_2)
  from assms have l: "n div 10 < 10" "n mod 10 < 10" by simp_all
  then show "is_digit (digit_char (n div 10))" "is_digit (digit_char (n mod 10))"
    by (simp_all add: is_digit_digit_char)
  have "int (10 * (n div 10) + n mod 10) = int n" by simp
  then have "10 * int (n div 10) + int (n mod 10) = int n"
    by (simp only: of_nat_add of_nat_mult of_nat_numeral)
  with l show "parseInt [digit_char (n div 10), digit_char (n mod 10)] = int n"
    by (simp add: parseInt_def digit_val_digit_char)
qed

lemma four_digits:
  assumes "n < 10000"
  obtains a b c d where "addLeadingZeros n 4 = [a, b, c, d]"
    and "is_digit a" and "is_digit b" and "is_digit c" and "is_digit d"
    and "parseInt [a, b, c, d] = int n"
proof
  show "addLeadingZeros n 4 =
     [digit_char (n div 1000), digit_char (n div 100 mod 10), digit_char (n div 10 mod 10),
      digit_char (n mod 10)]"
    using assms by (rule addLeadingZeros_4)
  from assms have l: "n div 1000 < 10" "n div 100 mod 10 < 10" "n div 10 mod 10 < 10" "n mod 10 < 10"
    by simp_all
  then show "is_digit (digit_char (n div 1000))" "is_digit (digit_char (n div 100 mod 10))"
    "is_digit (digit_char (n div 10 mod 10))" "is_digit (digit_char (n mod 10))"
    by (simp_all add: is_digit_digit_char)
  have h: "n div 10 div 10 = n div 100" "n div 100 div 10 = n div 1000"
    by (simp_all add: div_mult2_eq [symmetric])
  have "n = 10 * (n div 10) + n mod 10" by simp
  moreover have "n div 10 = 10 * (n div 10 div 10) + n div 10 mod 10" by simp
  moreover have "n div 100 = 10 * (n div 100 div 10) + n div 100 mod 10" by simp
  ultimately have "1000 * (n div 1000) + 100 * (n div 100 mod 10) + 10 * (n div 10 mod 10) + n mod 10 = n"
    unfolding h by linarith
  then have "int (1000 * (n div 1000) + 100 * (n div 100 mod 10) + 10 * (n div 10 mod 10) + n mod 10) = int n"
    by simp
  then have "1000 * int (n div 1000) + 100 * int (n div 100 mod 10) + 10 * int (n div 10 mod 10) + int (n mod 10) = int n"
    by (simp only: of_nat_add of_nat_mult of_nat_numeral)
  with l show "parseInt [digit_char (n div 1000), digit_char (n div 100 mod 10),
      digit_char (n div 10 mod 10), digit_char (n mod 10)] = int n"
    by (simp add: parseInt_def digit_val_digit_char)
qed

text \<open>The day number of a date in a year of four digits.\<close>

lemma day_number_bounds:
  assumes "0 \<le> y" and "y \<le> 9999" and "1 \<le> m" and "m \<le> 12" and "d \<le> 31"
  shows "- 900000 \<le> day_number (y, m, d)" and "day_number (y, m, d) \<le> 3000000"
proof -
  define y' where "y' = (if m \<le> 2 then y - 1 else y)"
  define era where "era = y' div 400"
  define yoe where "yoe = y' - era * 400"
  define mp where "mp = (if 2 < m then int m - 3 else int m + 9)"
  have y': "- 1 \<le> y'" "y' \<le> 9999" using assms by (auto simp: y'_def)
  then have era: "- 1 \<le> era" "era \<le> 24" by (simp_all add: era_def)
  have "yoe = y' mod 400" by (simp add: yoe_def era_def minus_div_mult_eq_mod)
  then have yoe: "0 \<le> yoe" "yoe \<le> 399" by simp_all
  then have q: "0 \<le> yoe div 4" "yoe div 4 \<le> 99" "0 \<le> yoe div 100" "yoe div 100 \<le> 3"
    by simp_all
  have mp: "0 \<le> mp" "mp \<le> 11" using assms by (auto simp: mp_def)
  then have r: "0 \<le> (153 * mp + 2) div 5" "(153 * mp + 2) div 5 \<le> 337" by simp_all
  have dn: "day_number (y, m, d) =
      era * 146097 + (yoe * 365 + yoe div 4 - yoe div 100 + ((153 * mp + 2) div 5 + int d - 1))
      - 719468"
    by (simp add: day_number_def Let_def y'_def era_def yoe_def mp_def)
  from era yoe q r assms(5) show "- 900000 \<le> day_number (y, m, d)" unfolding dn by linarith
  from era yoe q r assms(5) show "day_number (y, m, d) \<le> 3000000" unfolding dn by linarith
qed

subsection \<open>The parts of a written timestamp\<close>

lemma parseYear_four:
  assumes "is_digit a" "is_digit b" "is_digit c" "is_digit d"
  shows "parseYear (a # b # c # d # rest) = Some (parseInt [a, b, c, d], rest)"
  using assms by (simp add: parseYear_def all_digits_def)

lemma parseDate_calendar:
  assumes "is_digit a" "is_digit b" "is_digit c" "is_digit d"
    and "parseInt [a, b] = int m" and "parseInt [c, d] = int dd"
    and "validateDate y m dd" and "day_in_range (day_number (y, m, dd))"
  shows "parseDate [CHR ''-'', a, b, CHR ''-'', c, d] y = Some (y, m, dd)"
proof -
  have "[a, b, CHR ''-'', c, d] ! 2 = CHR ''-''" by simp
  with assms show ?thesis
    by (simp add: parseDate_def all_digits_def MakeDate_def add_days_def digit_class)
qed

lemma time_units_two:
  assumes "is_digit a" "is_digit b" and "r = [] \<or> \<not> is_fraction_mark (hd r)"
  shows "time_units (a # b # r) = [([a, b], r)]"
  using assms by (cases r) (auto simp: time_units_def)

lemma time_matches_seconds:
  assumes "is_digit a" "is_digit b" "is_digit c" "is_digit d" "is_digit e" "is_digit f"
  shows "time_matches [a, b, CHR '':'', c, d, CHR '':'', e, f] = [([a, b], [c, d], [e, f])]"
  using assms
  by (simp add: time_matches_def time_units_two after_colon_def is_fraction_mark_def)

lemma parseTimeUnit_two:
  "parseInt [a, b] = int n \<Longrightarrow> n < 100 \<Longrightarrow> parseTimeUnit [a, b] = of_nat n"
  using nearest_double_int [of "int n"] by (simp add: parseTimeUnit_def fraction_def)

lemma times_int:
  "\<bar>a * b\<bar> < 2 ^ 53 \<Longrightarrow> times (of_int a) (of_int b) = of_int (a * b)"
  using nearest_double_int [of "a * b"] by (simp add: times_def)

lemma plus_int:
  "\<bar>a + b\<bar> < 2 ^ 53 \<Longrightarrow> plus (of_int a) (of_int b) = of_int (a + b)"
  using nearest_double_int [of "a + b"] by (simp add: plus_def)

lemma TimeClip_int:
  "\<bar>v\<bar> \<le> 8640000000000000 \<Longrightarrow> TimeClip (of_int v) = Some v"
proof -
  assume "\<bar>v\<bar> \<le> 8640000000000000"
  then have "\<not> 8640000000000000 < \<bar>of_int v :: rat\<bar>"
    by (metis (no_types) not_less of_int_abs of_int_le_iff of_int_numeral)
  then show ?thesis by (simp add: TimeClip_def)
qed

lemma parseTime_seconds:
  assumes dg: "is_digit a" "is_digit b" "is_digit c" "is_digit d" "is_digit e" "is_digit f"
    and v: "parseInt [a, b] = int h" "parseInt [c, d] = int mi" "parseInt [e, f] = int s"
    and t: "if h = 24 then mi = 0 \<and> s = 0 else h < 24 \<and> mi < 60 \<and> s < 60"
  shows "parseTime [a, b, CHR '':'', c, d, CHR '':'', e, f] =
         Some (of_int ((3600 * int h + 60 * int mi + int s) * 1000))"
proof -
  from t have b: "h < 100" "mi < 100" "s < 100" "h \<le> 24" "mi < 60" "s < 60"
    by (auto split: if_splits)
  have u: "parseTimeUnit [a, b] = of_nat h" "parseTimeUnit [c, d] = of_nat mi"
    "parseTimeUnit [e, f] = of_nat s"
    using v b by (simp_all add: parseTimeUnit_two)
  have val: "validateTime (of_nat h) (of_nat mi) (of_nat s)"
    using t by (auto simp: validateTime_def split: if_splits)
  have th: "times (of_nat h) 3600000 = of_int (int h * 3600000)"
    using times_int [of "int h" 3600000] b by simp
  have tm: "times (of_nat mi) 60000 = of_int (int mi * 60000)"
    using times_int [of "int mi" 60000] b by simp
  have ts: "times (of_nat s) 1000 = of_int (int s * 1000)"
    using times_int [of "int s" 1000] b by simp
  have p1: "plus (of_int (int h * 3600000)) (of_int (int mi * 60000)) =
            of_int (int h * 3600000 + int mi * 60000)"
    using b by (intro plus_int) simp
  have p2: "plus (of_int (int h * 3600000 + int mi * 60000)) (of_int (int s * 1000)) =
            of_int (int h * 3600000 + int mi * 60000 + int s * 1000)"
    using b by (intro plus_int) simp
  have "parseTime [a, b, CHR '':'', c, d, CHR '':'', e, f] =
        Some (of_int (int h * 3600000 + int mi * 60000 + int s * 1000))"
    unfolding parseTime_def time_matches_seconds [OF dg]
    by (simp only: list.case prod.case Let_def u val if_True th tm ts p1 p2)
  moreover have "int h * 3600000 + int mi * 60000 + int s * 1000 =
        (3600 * int h + 60 * int mi + int s) * 1000" by simp
  ultimately show ?thesis by simp
qed

lemma parseTimezone_offset:
  assumes "is_sign sg" and "is_digit a" "is_digit b" "is_digit c" "is_digit d"
    and "parseInt [a, b] = int h" "parseInt [c, d] = int m" and "m \<le> 59"
  shows "parseTimezone [sg, a, b, CHR '':'', c, d] =
         Some ((if sg = CHR ''+'' then - 1 else 1) * (int h * 3600000 + int m * 60000))"
proof -
  have "[sg, a, b, CHR '':'', c, d] \<noteq> ''Z''" by simp
  with assms show ?thesis
    by (simp add: parseTimezone_def Let_def all_digits_def after_colon_def validateTimezone_def)
qed

subsection \<open>parseISO on a written timestamp\<close>

lemma validateDate_bounds:
  "validateDate y m d \<Longrightarrow> 1 \<le> m \<and> m \<le> 12 \<and> 1 \<le> d \<and> d \<le> 31"
  by (auto simp: validateDate_def days_in_month_def split: if_splits)

text \<open>
  A timestamp with a zone designator: the instant is the written time moved by the
  written offset, and the fields are those of the instant in the system zone.
\<close>

lemma parseISO_zoned:
  assumes split: "splitDateString s = (date, time, z)" and "date \<noteq> []" and "z \<noteq> []"
    and yr: "parseYear date = Some (y, rest)" and pd: "parseDate rest y = Some (y, m, d)"
    and pt: "parseTime time = Some (of_int t)" and "time \<noteq> []"
    and pz: "parseTimezone z = Some off"
    and y: "0 \<le> y" "y \<le> 9999" and md: "1 \<le> m" "m \<le> 12" "d \<le> 31"
    and t: "0 \<le> t" "t \<le> 86400000" and off: "\<bar>off\<bar> \<le> 1000000000"
  shows "parseISO_fixed tz s = Date (fields_at (y, m, d) (t + off + tz * 60000))"
proof -
  define T where "T = day_number (y, m, d) * 86400000"
  from day_number_bounds [OF y md]
  have T: "- 77760000000000 \<le> T" "T \<le> 259200000000000" by (simp_all add: T_def)
  have p1: "plus (of_int T) (of_int t) = of_int (T + t)"
    using T t by (intro plus_int) simp
  have p2: "plus (of_int (T + t)) (of_int off) = of_int (T + t + off)"
    using T t off by (intro plus_int) simp
  have c: "TimeClip (of_int (T + t + off)) = Some (T + t + off)"
    using T t off by (intro TimeClip_int) simp
  have "parseISO_fixed tz s = Date (fields_at (y, m, d) (T + t + off - T + tz * 60000))"
    unfolding parseISO_fixed_def split
    using assms(2,3,7)
    by (simp only: prod.case if_False yr option.case pd pt pz Let_def T_def [symmetric]
        p1 p2 c not_False_eq_True if_True)
  then show ?thesis by simp
qed

text \<open>A timestamp without zone designator: the fields are the written ones.\<close>

lemma parseISO_local:
  assumes split: "splitDateString s = (date, time, [])" and "date \<noteq> []"
    and yr: "parseYear date = Some (y, rest)" and pd: "parseDate rest y = Some (y, m, d)"
    and pt: "parseTime time = Some (of_int t)" and "time \<noteq> []"
    and y: "0 \<le> y" "y \<le> 9999" and md: "1 \<le> m" "m \<le> 12" "d \<le> 31"
    and t: "0 \<le> t" "t \<le> 86400000" and tz: "\<bar>tz\<bar> \<le> 1440"
  shows "parseISO_fixed tz s = Date (fields_at (y, m, d) t)"
proof -
  define T where "T = day_number (y, m, d) * 86400000"
  from day_number_bounds [OF y md]
  have T: "- 77760000000000 \<le> T" "T \<le> 259200000000000" by (simp_all add: T_def)
  have p1: "plus (of_int T) (of_int t) = of_int (T + t)"
    using T t by (intro plus_int) simp
  have c: "TimeClip (of_int (T + t)) = Some (T + t)"
    using T t by (intro TimeClip_int) simp
  have q: "0 \<le> t div 86400000" "t div 86400000 \<le> 1" using t by simp_all
  have r: "0 \<le> (tz * 60000) mod 86400000" "(tz * 60000) mod 86400000 < 86400000" by simp_all
  have b1: "\<bar>T + (T + t - T) div 86400000 * 86400000 + (tz * 60000) mod 86400000 - tz * 60000\<bar>
            \<le> 8640000000000000"
    using T q r tz by simp
  have b2: "\<bar>T + t - tz * 60000\<bar> \<le> 8640000000000000"
    using T t tz by simp
  have "parseISO_fixed tz s = Date (fields_at (y, m, d) (T + t - T))"
    unfolding parseISO_fixed_def split
    using assms(2,6)
    by (simp only: prod.case if_False yr option.case pd pt Let_def T_def [symmetric]
        p1 c not_False_eq_True b1 b2 simp_thms if_True)
  then show ?thesis by simp
qed

lemma mark_class:
  "\<not> is_dateTimeDelimiter (CHR ''-'')" "\<not> is_timeZoneDelimiter (CHR ''-'')"
  "\<not> is_dateTimeDelimiter (CHR '':'')" "\<not> is_zone_start (CHR '':'')"
  "\<not> is_line_terminator (CHR '':'')" "\<not> is_dateTimeDelimiter (CHR ''+'')"
  "is_zone_start (CHR ''-'')" "is_zone_start (CHR ''+'')" "is_zone_start (CHR ''Z'')"
  "\<not> is_dateTimeDelimiter (CHR ''Z'')" "is_sign (CHR ''+'')" "is_sign (CHR ''-'')"
  by (simp_all add: is_dateTimeDelimiter_def is_timeZoneDelimiter_def is_zone_start_def
      is_line_terminator_def is_sign_def)

text \<open>What \<^verbatim>\<open>parseISO\<close> reads from a written timestamp.\<close>

lemma parseISO_written:
  assumes w: "well_written w" and tz: "\<bar>tz\<bar> \<le> 1440"
  shows "parseISO_fixed tz (write_stamp w) =
         Date (fields_at (int (wyear w), wmonth w, wday w)
                 ((3600 * int (whour w) + 60 * int (wminute w) + int (wsecond w)) * 1000 +
                  (tz - offset_east tz (wzone w)) * 60000))"
proof -
  from w have y: "wyear w < 10000"
    and vd: "validateDate (int (wyear w)) (wmonth w) (wday w)"
    and t: "if whour w = 24 then wminute w = 0 \<and> wsecond w = 0
            else whour w < 24 \<and> wminute w < 60 \<and> wsecond w < 60"
    by (simp_all add: well_written_def)
  from validateDate_bounds [OF vd]
  have md: "1 \<le> wmonth w" "wmonth w \<le> 12" "wday w \<le> 31" by simp_all
  from t have hms: "whour w < 100" "wminute w < 100" "wsecond w < 100"
    by (auto split: if_splits)
  from md have md': "wmonth w < 100" "wday w < 100" by simp_all
  obtain y1 y2 y3 y4 where yd: "addLeadingZeros (wyear w) 4 = [y1, y2, y3, y4]"
    "is_digit y1" "is_digit y2" "is_digit y3" "is_digit y4"
    "parseInt [y1, y2, y3, y4] = int (wyear w)"
    by (rule four_digits [OF y])
  obtain m1 m2 where mo: "addLeadingZeros (wmonth w) 2 = [m1, m2]" "is_digit m1" "is_digit m2"
    "parseInt [m1, m2] = int (wmonth w)"
    by (rule two_digits [OF md'(1)])
  obtain d1 d2 where da: "addLeadingZeros (wday w) 2 = [d1, d2]" "is_digit d1" "is_digit d2"
    "parseInt [d1, d2] = int (wday w)"
    by (rule two_digits [OF md'(2)])
  obtain h1 h2 where ho: "addLeadingZeros (whour w) 2 = [h1, h2]" "is_digit h1" "is_digit h2"
    "parseInt [h1, h2] = int (whour w)"
    by (rule two_digits [OF hms(1)])
  obtain n1 n2 where mi: "addLeadingZeros (wminute w) 2 = [n1, n2]" "is_digit n1" "is_digit n2"
    "parseInt [n1, n2] = int (wminute w)"
    by (rule two_digits [OF hms(2)])
  obtain s1 s2 where se: "addLeadingZeros (wsecond w) 2 = [s1, s2]" "is_digit s1" "is_digit s2"
    "parseInt [s1, s2] = int (wsecond w)"
    by (rule two_digits [OF hms(3)])
  define date where "date = [y1, y2, y3, y4, CHR ''-'', m1, m2, CHR ''-'', d1, d2]"
  define time where "time = [h1, h2, CHR '':'', n1, n2, CHR '':'', s1, s2]"
  define z where "z = write_designator (wzone w)"
  define t where "t = (3600 * int (whour w) + 60 * int (wminute w) + int (wsecond w)) * 1000"
  have stamp: "write_stamp w = date @ CHR ''T'' # time @ z"
    by (simp add: write_stamp_def write_date_def yd mo da ho mi se date_def time_def z_def)
  have dc: "\<forall>c\<in>set date. \<not> is_dateTimeDelimiter c \<and> \<not> is_timeZoneDelimiter c \<and> c \<noteq> CHR '':''"
    using yd mo da
    by (simp add: date_def digit_class mark_class)
  have tc: "\<forall>c\<in>set time. \<not> is_dateTimeDelimiter c \<and> \<not> is_zone_start c"
    using ho mi se by (simp add: time_def digit_class mark_class)
  have yr: "parseYear date = Some (int (wyear w), [CHR ''-'', m1, m2, CHR ''-'', d1, d2])"
    unfolding date_def using yd by (simp add: parseYear_four)
  have range: "day_in_range (day_number (int (wyear w), wmonth w, wday w))"
    using day_number_bounds [of "int (wyear w)" "wmonth w" "wday w"] y md
    by (simp add: day_in_range_def)
  have pd: "parseDate [CHR ''-'', m1, m2, CHR ''-'', d1, d2] (int (wyear w)) =
            Some (int (wyear w), wmonth w, wday w)"
    using mo da vd range by (intro parseDate_calendar) simp_all
  have pt: "parseTime time = Some (of_int t)"
    unfolding time_def t_def using ho mi se t by (intro parseTime_seconds) simp_all
  have tb: "0 \<le> t" "t \<le> 86400000" using t by (auto simp: t_def split: if_splits)
  have ne: "date \<noteq> []" "time \<noteq> []" by (simp_all add: date_def time_def)
  have yb: "0 \<le> int (wyear w)" "int (wyear w) \<le> 9999" using y by simp_all
  show ?thesis
  proof (cases "wzone w")
    case No_designator
    then have z: "z = []" by (simp add: z_def write_designator_def)
    have "splitDateString (write_stamp w) = (date, time, [])"
      unfolding stamp z using dc tc by (intro splitDateString_parts) simp_all
    from parseISO_local [OF this ne(1) yr pd pt ne(2) yb md tb tz] No_designator
    show ?thesis by (simp add: t_def offset_east_def)
  next
    case Zulu
    then have z: "z = ''Z''" by (simp add: z_def write_designator_def)
    have sp: "splitDateString (write_stamp w) = (date, time, ''Z'')"
      unfolding stamp z using dc tc
      by (intro splitDateString_parts) (simp_all add: mark_class)
    have pz: "parseTimezone ''Z'' = Some 0" by (simp add: parseTimezone_def)
    have "parseISO_fixed tz (write_stamp w) =
        Date (fields_at (int (wyear w), wmonth w, wday w) (t + 0 + tz * 60000))"
      by (rule parseISO_zoned [OF sp ne(1) _ yr pd pt ne(2) pz yb md tb]) simp_all
    with Zulu show ?thesis by (simp add: t_def offset_east_def algebra_simps)
  next
    case (East zh zm)
    with w have zb: "zh < 100" "zm < 100" "zm \<le> 59" by (simp_all add: well_written_def)
    obtain a b where zh: "addLeadingZeros zh 2 = [a, b]" "is_digit a" "is_digit b"
      "parseInt [a, b] = int zh"
      by (rule two_digits [OF zb(1)])
    obtain c d where zm: "addLeadingZeros zm 2 = [c, d]" "is_digit c" "is_digit d"
      "parseInt [c, d] = int zm"
      by (rule two_digits [OF zb(2)])
    from East have z: "z = [CHR ''+'', a, b, CHR '':'', c, d]"
      by (simp add: z_def write_designator_def zh zm)
    have sp: "splitDateString (write_stamp w) = (date, time, z)"
      unfolding stamp using dc tc zh zm
      by (intro splitDateString_parts)
         (simp_all add: z mark_class digit_class)
    have pz: "parseTimezone z = Some (- 1 * (int zh * 3600000 + int zm * 60000))"
      unfolding z using parseTimezone_offset [of "CHR ''+''" a b c d zh zm] zh zm zb
      by (simp add: mark_class)
    have ob: "\<bar>- 1 * (int zh * 3600000 + int zm * 60000)\<bar> \<le> 1000000000"
      using zb by simp
    have zn: "z \<noteq> []" by (simp add: z)
    have "parseISO_fixed tz (write_stamp w) =
        Date (fields_at (int (wyear w), wmonth w, wday w)
                (t + - 1 * (int zh * 3600000 + int zm * 60000) + tz * 60000))"
      by (rule parseISO_zoned [OF sp ne(1) zn yr pd pt ne(2) pz yb md tb ob])
    with East show ?thesis by (simp add: t_def offset_east_def algebra_simps)
  next
    case (West zh zm)
    with w have zb: "zh < 100" "zm < 100" "zm \<le> 59" by (simp_all add: well_written_def)
    obtain a b where zh: "addLeadingZeros zh 2 = [a, b]" "is_digit a" "is_digit b"
      "parseInt [a, b] = int zh"
      by (rule two_digits [OF zb(1)])
    obtain c d where zm: "addLeadingZeros zm 2 = [c, d]" "is_digit c" "is_digit d"
      "parseInt [c, d] = int zm"
      by (rule two_digits [OF zb(2)])
    from West have z: "z = [CHR ''-'', a, b, CHR '':'', c, d]"
      by (simp add: z_def write_designator_def zh zm)
    have sp: "splitDateString (write_stamp w) = (date, time, z)"
      unfolding stamp using dc tc zh zm
      by (intro splitDateString_parts)
         (simp_all add: z mark_class digit_class)
    have pz: "parseTimezone z = Some (1 * (int zh * 3600000 + int zm * 60000))"
      unfolding z using parseTimezone_offset [of "CHR ''-''" a b c d zh zm] zh zm zb
      by (simp add: mark_class)
    have ob: "\<bar>1 * (int zh * 3600000 + int zm * 60000)\<bar> \<le> 1000000000"
      using zb by simp
    have zn: "z \<noteq> []" by (simp add: z)
    have "parseISO_fixed tz (write_stamp w) =
        Date (fields_at (int (wyear w), wmonth w, wday w)
                (t + 1 * (int zh * 3600000 + int zm * 60000) + tz * 60000))"
      by (rule parseISO_zoned [OF sp ne(1) zn yr pd pt ne(2) pz yb md tb ob])
    with West show ?thesis by (simp add: t_def offset_east_def algebra_simps)
  qed
qed

section \<open>Properties of the aggregator\<close>

subsection \<open>The grouping loop\<close>

lemma map_fst_map_entry: "map fst (AList.map_entry k f xs) = map fst xs"
  by (induct xs) auto

lemma keys_add_point:
  "map fst (add_point key p grouped) =
     (if key \<in> set (map fst grouped) then map fst grouped else map fst grouped @ [key])"
  by (auto simp: add_point_def Let_def map_fst_map_entry map_of_eq_None_iff)

lemma map_of_add_point:
  "map_of (add_point key p grouped) k =
     (if k = key then
        Some (case map_of grouped key of
                None \<Rightarrow> \<lparr>cloud = [cloud_cover_pct p], lightning = [lightning_prob_pct p]\<rparr>
              | Some v \<Rightarrow> \<lparr>cloud = cloud v @ [cloud_cover_pct p],
                           lightning = lightning v @ [lightning_prob_pct p]\<rparr>)
      else map_of grouped k)"
  by (auto simp: add_point_def Let_def map_of_map_entry map_add_def split: option.splits)

lemma distinct_add_point:
  "distinct (map fst grouped) \<Longrightarrow> distinct (map fst (add_point key p grouped))"
  by (simp add: keys_add_point)

text \<open>
  The loop body throws a \<^verbatim>\<open>TypeError\<close> exactly on a key that is not yet in \<^verbatim>\<open>grouped\<close> and
  names a property of \<^verbatim>\<open>Object.prototype\<close>.
\<close>

lemma push_point_returns:
  "push_point key p grouped =
     (if key \<in> set Object_prototype_names \<and> key \<notin> set (map fst grouped) then Inl TypeError
      else Inr (add_point key p grouped))"
proof (cases "map_of grouped key")
  case None
  then have k: "key \<notin> set (map fst grouped)" by (simp add: map_of_eq_None_iff)
  show ?thesis
  proof (cases "key \<in> set Object_prototype_names")
    case True
    with None k show ?thesis by (simp add: push_point_def get_property_def)
  next
    case False
    with None k show ?thesis
      by (simp add: push_point_def get_property_def add_point_def Let_def map_add_def)
  qed
next
  case (Some v)
  then have "key \<in> set (map fst grouped)"
    by (metis map_of_eq_None_iff option.distinct(1) set_map)
  with Some show ?thesis
    by (simp add: push_point_def get_property_def add_point_def Let_def)
qed

subsection \<open>The order of \<^verbatim>\<open>Object.entries\<close>\<close>



lemma Object_entries_no_index:
  "\<forall>k\<in>set (map fst g). \<not> array_index k \<Longrightarrow> Object_entries g = g"
  by (simp add: Object_entries_def filter_empty_conv)

lemma hyphenated_key:
  assumes "hyphenated key"
  shows "\<not> array_index key" and "key \<notin> set Object_prototype_names"
proof -
  have "\<not> is_digit (CHR ''-'')" by (simp add: is_digit_def)
  with assms show "\<not> array_index key"
    by (auto simp: array_index_def all_digits_def hyphenated_def list_all_iff)
  from assms show "key \<notin> set Object_prototype_names"
    by (auto simp: hyphenated_def Object_prototype_names_def)
qed

lemma set_first_seen: "set (first_seen xs) = set xs"
  by (induction xs rule: first_seen.induct) auto

lemma first_seen_map: "first_seen (map k xs) = map k (first_of_each k xs)"
proof (induction k xs rule: first_of_each.induct)
  case (1 k)
  then show ?case by simp
next
  case (2 k x xs)
  have "filter (\<lambda>y. y \<noteq> k x) (map k xs) = map k (filter (\<lambda>y. k y \<noteq> k x) xs)"
    by (simp add: filter_map comp_def)
  with 2 show ?case by simp
qed

lemma set_first_of_each: "set (first_of_each k xs) \<subseteq> set xs"
  by (induction k xs rule: first_of_each.induct) auto

lemma sorted_wrt_first_of_each:
  "sorted_wrt R xs \<Longrightarrow> sorted_wrt R (first_of_each k xs)"
proof (induction k xs rule: first_of_each.induct)
  case (1 k)
  then show ?case by simp
next
  case (2 k x xs)
  from "2.prems" have "sorted_wrt R (filter (\<lambda>y. k y \<noteq> k x) xs)"
    by (simp add: sorted_wrt_filter)
  with 2 have "sorted_wrt R (first_of_each k (filter (\<lambda>y. k y \<noteq> k x) xs))" by simp
  moreover have "\<forall>y\<in>set (first_of_each k (filter (\<lambda>y. k y \<noteq> k x) xs)). R x y"
    using set_first_of_each [of k "filter (\<lambda>y. k y \<noteq> k x) xs"] "2.prems" by auto
  ultimately show ?case by simp
qed

text \<open>The keys of \<^verbatim>\<open>grouped\<close> after the loop: the old keys, then the new ones as first seen.\<close>

lemma group_points_step:
  assumes "group_points L agg (p # ps) g = Inr g'"
  obtains key where "bucket_key L agg p = Inr key"
    and "push_point key p g = Inr (add_point key p g)"
    and "key \<notin> set Object_prototype_names \<or> key \<in> set (map fst g)"
    and "group_points L agg ps (add_point key p g) = Inr g'"
proof -
  from assms obtain key g1 where k: "bucket_key L agg p = Inr key"
    and p: "push_point key p g = Inr g1" and r: "group_points L agg ps g1 = Inr g'"
    by (auto split: sum.splits)
  from p have "g1 = add_point key p g"
    and "key \<notin> set Object_prototype_names \<or> key \<in> set (map fst g)"
    by (auto simp: push_point_returns split: if_splits)
  with k p r that show ?thesis by blast
qed

lemma group_points_keys:
  "group_points L agg ps g = Inr g' \<Longrightarrow>
   map Inr (map fst g') =
     map Inr (map fst g) @
     first_seen (filter (\<lambda>k. k \<notin> Inr ` set (map fst g)) (map (bucket_key L agg) ps))"
proof (induction ps arbitrary: g)
  case Nil
  then show ?case by simp
next
  case (Cons p ps)
  from Cons.prems obtain key where key: "bucket_key L agg p = Inr key"
    and rest: "group_points L agg ps (add_point key p g) = Inr g'"
    by (rule group_points_step)
  note ih = Cons.IH [OF rest]
  have "filter (\<lambda>k. k \<notin> Inr ` set (map fst (add_point key p g))) (map (bucket_key L agg) ps) =
        filter (\<lambda>y. y \<noteq> Inr key)
          (filter (\<lambda>k. k \<notin> Inr ` set (map fst g)) (map (bucket_key L agg) ps))"
    unfolding filter_filter by (rule filter_cong) (auto simp: keys_add_point)
  with ih have ih': "map Inr (map fst g') =
      map Inr (map fst (add_point key p g)) @
      first_seen (filter (\<lambda>y. y \<noteq> Inr key)
          (filter (\<lambda>k. k \<notin> Inr ` set (map fst g)) (map (bucket_key L agg) ps)))"
    by simp
  show ?case
  proof (cases "key \<in> set (map fst g)")
    case True
    then have "filter (\<lambda>y. y \<noteq> Inr key)
          (filter (\<lambda>k. k \<notin> Inr ` set (map fst g)) (map (bucket_key L agg) ps)) =
          filter (\<lambda>k. k \<notin> Inr ` set (map fst g)) (map (bucket_key L agg) ps)"
      unfolding filter_filter by (intro filter_cong) auto
    with True ih' key show ?thesis by (simp add: keys_add_point image_iff)
  next
    case False
    with ih' key show ?thesis by (simp add: keys_add_point image_iff)
  qed
qed

lemma group_points_distinct:
  "group_points L agg ps g = Inr g' \<Longrightarrow> distinct (map fst g) \<Longrightarrow> distinct (map fst g')"
proof (induction ps arbitrary: g)
  case Nil
  then show ?case by simp
next
  case (Cons p ps)
  from Cons.prems(1) obtain key where "group_points L agg ps (add_point key p g) = Inr g'"
    by (rule group_points_step)
  from Cons.IH [OF this] Cons.prems(2) show ?case by (simp add: distinct_add_point)
qed

text \<open>The values of a bucket after the loop: the old ones, then those of the points with its key.\<close>

lemma group_points_values:
  "group_points L agg ps g = Inr g' \<Longrightarrow>
   bucket_values g' key =
     \<lparr>cloud = cloud (bucket_values g key) @ map cloud_cover_pct (points_with_key L agg ps key),
      lightning = lightning (bucket_values g key) @
                  map lightning_prob_pct (points_with_key L agg ps key)\<rparr>"
proof (induction ps arbitrary: g)
  case Nil
  then show ?case by (simp add: points_with_key_def)
next
  case (Cons p ps)
  from Cons.prems obtain k where k: "bucket_key L agg p = Inr k"
    and rest: "group_points L agg ps (add_point k p g) = Inr g'"
    by (rule group_points_step)
  show ?case
    using Cons.IH [OF rest] k
    by (auto simp: points_with_key_def bucket_values_def map_of_add_point split: option.splits)
qed

text \<open>
  The loop returns exactly when \<^verbatim>\<open>format\<close> returns a key for every point and no new key
  names a property of \<^verbatim>\<open>Object.prototype\<close>.
\<close>

lemma group_points_returns:
  "(\<exists>g'. group_points L agg ps g = Inr g') \<longleftrightarrow>
   (\<forall>p\<in>set ps. \<exists>k. bucket_key L agg p = Inr k \<and>
      (k \<notin> set Object_prototype_names \<or> k \<in> set (map fst g)))"
proof (induction ps arbitrary: g)
  case Nil
  then show ?case by simp
next
  case (Cons p ps)
  show ?case
  proof (cases "bucket_key L agg p")
    case (Inl e)
    then show ?thesis by simp
  next
    case (Inr k)
    show ?thesis
    proof (cases "k \<in> set Object_prototype_names \<and> k \<notin> set (map fst g)")
      case True
      then have "push_point k p g = Inl TypeError" by (simp add: push_point_returns)
      with Inr have "group_points L agg (p # ps) g = Inl (Inr TypeError)" by simp
      with Inr True show ?thesis by auto
    next
      case False
      then have "push_point k p g = Inr (add_point k p g)" by (simp add: push_point_returns)
      with Inr have step: "group_points L agg (p # ps) g = group_points L agg ps (add_point k p g)"
        by simp
      have keys: "set (map fst (add_point k p g)) = insert k (set (map fst g))"
        by (auto simp: keys_add_point)
      have "(\<forall>q\<in>set ps. \<exists>k'. bucket_key L agg q = Inr k' \<and>
               (k' \<notin> set Object_prototype_names \<or> k' \<in> set (map fst (add_point k p g)))) \<longleftrightarrow>
            (\<forall>q\<in>set ps. \<exists>k'. bucket_key L agg q = Inr k' \<and>
               (k' \<notin> set Object_prototype_names \<or> k' \<in> set (map fst g)))"
        unfolding keys using False by auto
      with Cons.IH [of "add_point k p g"]
      have "(\<exists>g'. group_points L agg ps (add_point k p g) = Inr g') \<longleftrightarrow>
            (\<forall>q\<in>set ps. \<exists>k'. bucket_key L agg q = Inr k' \<and>
               (k' \<notin> set Object_prototype_names \<or> k' \<in> set (map fst g)))"
        by simp
      moreover have "\<exists>k'. bucket_key L agg p = Inr k' \<and>
               (k' \<notin> set Object_prototype_names \<or> k' \<in> set (map fst g))"
        using Inr False by blast
      ultimately show ?thesis unfolding step by auto
    qed
  qed
qed

lemma grouped_entry:
  assumes "group_points L agg ps [] = Inr g" and "(key, v) \<in> set g"
  shows "v = \<lparr>cloud = map cloud_cover_pct (points_with_key L agg ps key),
              lightning = map lightning_prob_pct (points_with_key L agg ps key)\<rparr>"
    and "points_with_key L agg ps key \<noteq> []"
proof -
  have d: "distinct (map fst g)" using group_points_distinct [OF assms(1)] by simp
  with assms(2) have "map_of g key = Some v" by simp
  then have "bucket_values g key = v" by (simp add: bucket_values_def)
  with group_points_values [OF assms(1), of key]
  show v: "v = \<lparr>cloud = map cloud_cover_pct (points_with_key L agg ps key),
              lightning = map lightning_prob_pct (points_with_key L agg ps key)\<rparr>"
    by (simp add: bucket_values_def)
  from group_points_keys [OF assms(1)]
  have eq: "first_seen (map (bucket_key L agg) ps) = map Inr (map fst g)" by simp
  have "Inr key \<in> set (map Inr (map fst g))" using assms(2) by force
  then have "Inr key \<in> set (first_seen (map (bucket_key L agg) ps))" unfolding eq .
  then have "Inr key \<in> set (map (bucket_key L agg) ps)"
    unfolding first_seen_map using set_first_of_each [of "bucket_key L agg" ps] by auto
  then show "points_with_key L agg ps key \<noteq> []"
    by (auto simp: points_with_key_def filter_empty_conv)
qed

lemma grouped_keys:
  assumes "group_points L agg ps [] = Inr g"
  shows "set (map fst g) = {key. points_with_key L agg ps key \<noteq> []}"
proof -
  from group_points_keys [OF assms]
  have "map Inr (map fst g) = first_seen (map (bucket_key L agg) ps)" by simp
  then have eq: "set (map Inr (map fst g)) = set (map (bucket_key L agg) ps)"
    by (simp only: set_first_seen)
  have "key \<in> set (map fst g) \<longleftrightarrow> (\<exists>p\<in>set ps. bucket_key L agg p = Inr key)" for key
  proof -
    have "key \<in> set (map fst g) \<longleftrightarrow>
          (Inr key :: RangeError + string) \<in> set (map Inr (map fst g))"
      by auto
    moreover have "(Inr key :: RangeError + string) \<in> set (map Inr (map fst g)) \<longleftrightarrow>
          Inr key \<in> set (map (bucket_key L agg) ps)"
      unfolding eq ..
    moreover have "Inr key \<in> set (map (bucket_key L agg) ps) \<longleftrightarrow>
          (\<exists>p\<in>set ps. bucket_key L agg p = Inr key)"
      by force
    ultimately show ?thesis by blast
  qed
  then show ?thesis
    by (auto simp: points_with_key_def filter_empty_conv)
qed

lemma aggregateData_grouped:
  assumes "24 < length series" and "agg = daily \<or> agg = monthly"
    and "aggregateData L series agg = Inr out"
  obtains g where "group_points L agg series [] = Inr g"
    and "out = map bucket_point (Object_entries g)"
  using assms by (auto simp: aggregateData_def split: sum.splits)

lemma label_bucket_point: "label (bucket_point e) = fst e"
  by (cases e) (simp add: bucket_point_def)

subsection \<open>The hourly branch\<close>

lemma hourly_points_returns:
  "(\<exists>out. hourly_points L ps = Inr out) \<longleftrightarrow>
   (\<forall>p\<in>set ps. \<exists>l. format L (parseISO L (timestamp p)) ''dd/MM HH:mm'' = Inr l)"
  by (induction ps) (auto split: sum.splits)

lemma hourly_points_shape:
  "hourly_points L ps = Inr out \<Longrightarrow>
   length out = length ps \<and>
   (\<forall>i<length ps.
      timestamp (out ! i) = timestamp (ps ! i) \<and>
      cloud_cover_pct (out ! i) = cloud_cover_pct (ps ! i) \<and>
      lightning_prob_pct (out ! i) = lightning_prob_pct (ps ! i) \<and>
      format L (parseISO L (timestamp (ps ! i))) ''dd/MM HH:mm'' = Inr (label (out ! i)))"
proof (induction ps arbitrary: out)
  case Nil
  then show ?case by simp
next
  case (Cons p ps)
  from Cons.prems obtain l rest
    where l: "format L (parseISO L (timestamp p)) ''dd/MM HH:mm'' = Inr l"
    and rest: "hourly_points L ps = Inr rest"
    and out: "out = \<lparr>timestamp = timestamp p, cloud_cover_pct = cloud_cover_pct p,
                     lightning_prob_pct = lightning_prob_pct p, label = l\<rparr> # rest"
    by (auto split: sum.splits)
  from Cons.IH [OF rest] l out show ?case
    by (auto simp: nth_Cons split: nat.splits)
qed

subsection \<open>The environment\<close>




subsection \<open>The mean\<close>

lemma number_of_nat_of_nat: "number_of_nat n = (of_nat n :: 'a::semiring_1)"
  by (induction n) (simp_all add: add.commute)



subsection \<open>The library on a machine with a fixed offset\<close>

lemma date_fns_sel [simp]:
  "parseISO (date_fns tz) = parseISO_fixed tz" "format (date_fns tz) = format_fixed"
  by (simp_all add: date_fns_def)

lemma format_fixed_returns:
  "formatStr = ''dd/MM HH:mm'' \<or> formatStr = ''yyyy-MM-dd'' \<or> formatStr = ''yyyy-MM'' \<Longrightarrow>
   (\<exists>l. format_fixed date formatStr = Inr l) \<longleftrightarrow> date \<noteq> Invalid_Date"
  by (cases date) (auto simp: format_fixed_def)

text \<open>The keys that the library prints have a hyphen in them.\<close>

lemma date_fns_hyphenated:
  "bucket_key (date_fns tz) agg p = Inr k \<Longrightarrow> hyphenated k"
  by (cases "parseISO_fixed tz (timestamp p)")
     (auto simp: bucket_key_def format_fixed_def hyphenated_def split: if_splits)

lemma format_fixed_keys:
  "format_fixed (Date c) ''yyyy-MM-dd'' = Inr (day_key (year c, month c, day c))"
  "format_fixed (Date c) ''yyyy-MM'' = Inr (month_key (year c, month c, day c))"
  by (simp_all add: format_fixed_def day_key_def month_key_def token_yyyy_def token_MM_def
      token_dd_def)

lemma fields_at_date:
  "(year (fields_at ymd ms), month (fields_at ymd ms), day (fields_at ymd ms)) =
   add_days (ms div 86400000) ymd"
  by (cases "add_days (ms div 86400000) ymd") (simp add: fields_at_def Let_def)

text \<open>The days in a number of milliseconds that is written as hours, minutes and seconds.\<close>

lemma days_of_milliseconds:
  fixes h mi s d :: int
  assumes "0 \<le> s" and "s < 60"
  shows "((3600 * h + 60 * mi + s) * 1000 + d * 60000) div 86400000 = (60 * h + mi + d) div 1440"
proof -
  have "(3600 * h + 60 * mi + s) * 1000 + d * 60000 = (60 * h + mi + d) * 60000 + s * 1000"
    by simp
  moreover have "((60 * h + mi + d) * 60000 + s * 1000) div 60000 = 60 * h + mi + d"
    using assms by simp
  moreover have "x div 86400000 = x div 60000 div 1440" for x :: int
    by (simp add: zdiv_zmult2_eq [symmetric])
  ultimately show ?thesis by simp
qed

text \<open>The keys of a written timestamp.\<close>

lemma keys_written:
  assumes w: "well_written w" and tz: "\<bar>tz\<bar> \<le> 1440" and p: "timestamp p = write_stamp w"
  shows "bucket_key (date_fns tz) daily p =
           Inr (day_key (add_days (days_carried tz w) (int (wyear w), wmonth w, wday w)))"
    and "bucket_key (date_fns tz) monthly p =
           Inr (month_key (add_days (days_carried tz w) (int (wyear w), wmonth w, wday w)))"
proof -
  let ?ms = "(3600 * int (whour w) + 60 * int (wminute w) + int (wsecond w)) * 1000 +
             (tz - offset_east tz (wzone w)) * 60000"
  let ?c = "fields_at (int (wyear w), wmonth w, wday w) ?ms"
  from w have s: "wsecond w < 60" by (auto simp: well_written_def split: if_splits)
  have "?ms div 86400000 =
        (60 * int (whour w) + int (wminute w) + (tz - offset_east tz (wzone w))) div 1440"
    using s by (intro days_of_milliseconds) simp_all
  also have "\<dots> = days_carried tz w" by (simp add: days_carried_def)
  finally have d: "?ms div 86400000 = days_carried tz w" .
  have f: "(year ?c, month ?c, day ?c) =
           add_days (days_carried tz w) (int (wyear w), wmonth w, wday w)"
    unfolding fields_at_date d ..
  have parsed: "parseISO_fixed tz (timestamp p) = Date ?c"
    unfolding p by (rule parseISO_written [OF w tz])
  show "bucket_key (date_fns tz) daily p =
           Inr (day_key (add_days (days_carried tz w) (int (wyear w), wmonth w, wday w)))"
    unfolding bucket_key_def date_fns_sel parsed by (simp only: format_fixed_keys f simp_thms if_True)
  show "bucket_key (date_fns tz) monthly p =
           Inr (month_key (add_days (days_carried tz w) (int (wyear w), wmonth w, wday w)))"
    unfolding bucket_key_def date_fns_sel parsed
    by (simp only: format_fixed_keys f AggregationType.distinct simp_thms if_False)
qed

text \<open>The written date of a written timestamp.\<close>

lemma take_write_stamp:
  assumes "wyear w \<le> 9999" and "wmonth w < 100" and "wday w < 100"
  shows "take 10 (write_stamp w) = write_date w"
    and "take 7 (write_stamp w) =
         addLeadingZeros (wyear w) 4 @ ''-'' @ addLeadingZeros (wmonth w) 2"
  using assms
  by (simp_all add: write_stamp_def write_date_def addLeadingZeros_4 addLeadingZeros_2)

lemma keys_written_date:
  assumes w: "well_written w" and y: "1 \<le> wyear w"
  shows "day_key (int (wyear w), wmonth w, wday w) = take 10 (write_stamp w)"
    and "month_key (int (wyear w), wmonth w, wday w) = take 7 (write_stamp w)"
proof -
  from w have b: "wyear w \<le> 9999" "validateDate (int (wyear w)) (wmonth w) (wday w)"
    by (simp_all add: well_written_def)
  from validateDate_bounds [OF b(2)] have m: "wmonth w < 100" "wday w < 100" by simp_all
  from y have "nat (if 0 < int (wyear w) then int (wyear w) else 1 - int (wyear w)) = wyear w"
    by simp
  then show "day_key (int (wyear w), wmonth w, wday w) = take 10 (write_stamp w)"
    and "month_key (int (wyear w), wmonth w, wday w) = take 7 (write_stamp w)"
    unfolding take_write_stamp [OF b(1) m] by (simp_all add: day_key_def month_key_def write_date_def)
qed

subsection \<open>The example series\<close>

lemma hour_stamp_written:
  "h < 100 \<Longrightarrow> hour_stamp ''2024-06-01'' h =
     write_stamp \<lparr>wyear = 2024, wmonth = 6, wday = 1, whour = h, wminute = 0, wsecond = 0,
                   wzone = Zulu\<rparr>"
  "h < 100 \<Longrightarrow> hour_stamp ''2024-06-02'' h =
     write_stamp \<lparr>wyear = 2024, wmonth = 6, wday = 2, whour = h, wminute = 0, wsecond = 0,
                   wzone = Zulu\<rparr>"
  "h < 100 \<Longrightarrow> local_hour_stamp ''2024-06-01'' h =
     write_stamp \<lparr>wyear = 2024, wmonth = 6, wday = 1, whour = h, wminute = 0, wsecond = 0,
                   wzone = No_designator\<rparr>"
  "h < 100 \<Longrightarrow> local_hour_stamp ''2024-06-02'' h =
     write_stamp \<lparr>wyear = 2024, wmonth = 6, wday = 2, whour = h, wminute = 0, wsecond = 0,
                   wzone = No_designator\<rparr>"
  by (simp_all add: hour_stamp_def local_hour_stamp_def write_stamp_def write_date_def
      write_designator_def addLeadingZeros_4 addLeadingZeros_2 digit_char_numerals)

lemma well_written_hour:
  "h < 24 \<Longrightarrow> d \<in> {1, 2} \<Longrightarrow> z \<in> {Zulu, No_designator} \<Longrightarrow>
   well_written \<lparr>wyear = 2024, wmonth = 6, wday = d, whour = h, wminute = 0, wsecond = 0,
                  wzone = z\<rparr>"
  by (auto simp: well_written_def validateDate_def days_in_month_def)

text \<open>The fields of the hours of a day that begin on that day in local time.\<close>

lemma fields_at_hour:
  assumes "h < 24"
  shows "fields_at (y, m, d) (3600000 * int h) =
         \<lparr>year = y, month = m, day = d, hours = h, minutes = 0, seconds = 0,
          milliseconds = 0\<rparr>"
proof -
  from assms have d: "(3600000 * int h) div 86400000 = 0"
    "(3600000 * int h) mod 86400000 = 3600000 * int h"
    by simp_all
  have "3600000 * int h div 60000 = int h * 60" "3600000 * int h div 1000 = int h * 3600"
    by simp_all
  moreover have "3600000 * int h mod 1000 = 0" by simp
  ultimately show ?thesis
    by (simp add: fields_at_def d add_days_def Let_def)
qed

lemma parse_two_days:
  "h < 24 \<Longrightarrow> parseISO_fixed 0 (hour_stamp ''2024-06-01'' h) =
     Date \<lparr>year = 2024, month = 6, day = 1, hours = h, minutes = 0, seconds = 0,
           milliseconds = 0\<rparr>"
  "h < 24 \<Longrightarrow> parseISO_fixed 0 (hour_stamp ''2024-06-02'' h) =
     Date \<lparr>year = 2024, month = 6, day = 2, hours = h, minutes = 0, seconds = 0,
           milliseconds = 0\<rparr>"
proof -
  assume h: "h < 24"
  have "(3600 * int h + 60 * int 0 + int 0) * 1000 + (0 - offset_east 0 Zulu) * 60000 =
        int h * 3600000"
    by (simp add: offset_east_def)
  with h show "parseISO_fixed 0 (hour_stamp ''2024-06-01'' h) =
     Date \<lparr>year = 2024, month = 6, day = 1, hours = h, minutes = 0, seconds = 0,
           milliseconds = 0\<rparr>"
    "parseISO_fixed 0 (hour_stamp ''2024-06-02'' h) =
     Date \<lparr>year = 2024, month = 6, day = 2, hours = h, minutes = 0, seconds = 0,
           milliseconds = 0\<rparr>"
    by (simp_all add: hour_stamp_written parseISO_written well_written_hour fields_at_hour)
qed

lemma daily_key_written:
  "well_written w \<Longrightarrow> \<bar>tz\<bar> \<le> 1440 \<Longrightarrow>
   bucket_key (date_fns tz) daily
     \<lparr>timestamp = write_stamp w, cloud_cover_pct = c, lightning_prob_pct = l\<rparr> =
   Inr (day_key (add_days (days_carried tz w) (int (wyear w), wmonth w, wday w)))"
  by (rule keys_written(1)) simp_all

lemma monthly_key_written:
  "well_written w \<Longrightarrow> \<bar>tz\<bar> \<le> 1440 \<Longrightarrow>
   bucket_key (date_fns tz) monthly
     \<lparr>timestamp = write_stamp w, cloud_cover_pct = c, lightning_prob_pct = l\<rparr> =
   Inr (month_key (add_days (days_carried tz w) (int (wyear w), wmonth w, wday w)))"
  by (rule keys_written(2)) simp_all

lemma key_examples:
  "day_key (2024, 6, Suc 0) = ''2024-06-01''"
  "day_key (2024, 6, 1) = ''2024-06-01''" "day_key (2024, 6, 2) = ''2024-06-02''"
  "day_key (2024, 6, 3) = ''2024-06-03''" "day_key (2024, 1, 31) = ''2024-01-31''"
  "day_key (2024, 2, 1) = ''2024-02-01''" "month_key (2024, 1, 31) = ''2024-01''"
  "month_key (2024, 2, 1) = ''2024-02''" "day_key (0, 6, 1) = ''0001-06-01''"
  by (simp_all add: day_key_def month_key_def addLeadingZeros_4 addLeadingZeros_2
      digit_char_numerals)


text \<open>The daily keys of the two-day series, on a machine in UTC and one hour east of it.\<close>

lemma keys_two_days:
  "h < 24 \<Longrightarrow>
   bucket_key (date_fns 0) daily
     \<lparr>timestamp = hour_stamp ''2024-06-01'' h, cloud_cover_pct = c, lightning_prob_pct = l\<rparr> =
   Inr ''2024-06-01''"
  "h < 24 \<Longrightarrow>
   bucket_key (date_fns 0) daily
     \<lparr>timestamp = hour_stamp ''2024-06-02'' h, cloud_cover_pct = c, lightning_prob_pct = l\<rparr> =
   Inr ''2024-06-02''"
proof -
  assume h: "h < 24"
  then have "(int (60 * h + 0) + 0 - 0) div 1440 = 0" by simp
  with h show "bucket_key (date_fns 0) daily
     \<lparr>timestamp = hour_stamp ''2024-06-01'' h, cloud_cover_pct = c, lightning_prob_pct = l\<rparr> =
   Inr ''2024-06-01''"
    "bucket_key (date_fns 0) daily
     \<lparr>timestamp = hour_stamp ''2024-06-02'' h, cloud_cover_pct = c, lightning_prob_pct = l\<rparr> =
   Inr ''2024-06-02''"
    by (simp_all add: daily_key_written hour_stamp_written well_written_hour days_carried_def
        offset_east_def add_days_def key_examples)
qed



lemma length_two_days: "length two_days = 48" "length two_local_days = 48"
  by (simp_all add: two_days_def two_local_days_def day_hours_def)

lemma grouped_two_days:
  "group_points (date_fns 0) daily two_days [] =
   Inr [(''2024-06-01'',
         \<lparr>cloud = map real day_hours, lightning = map (\<lambda>h. 10) day_hours\<rparr>),
        (''2024-06-02'',
         \<lparr>cloud = map (\<lambda>h. 50) day_hours, lightning = map (\<lambda>h. real (2 * h)) day_hours\<rparr>)]"
  by (simp add: two_days_def day_hours_def keys_two_days push_point_returns add_point_def
      Object_prototype_names_def)

lemma Object_entries_examples:
  "Object_entries [(''2024-06-01'', v1), (''2024-06-02'', v2)] =
     [(''2024-06-01'', v1), (''2024-06-02'', v2)]"
  "Object_entries [(''2024-06-01'', v1), (''2024-06-02'', v2), (''2024-06-03'', v3)] =
     [(''2024-06-01'', v1), (''2024-06-02'', v2), (''2024-06-03'', v3)]"
  by (rule Object_entries_no_index, simp add: hyphenated_key(1) hyphenated_def)+

lemma aggregate_two_days: "aggregateData (date_fns 0) two_days daily = Inr two_days_daily"
  by (simp add: aggregateData_def grouped_two_days length_two_days Object_entries_examples)
     (simp add: two_days_daily_def day_hours_def bucket_point_def mean_def
        number_of_nat_of_nat)



lemma parsed_two_days:
  "map (\<lambda>p. parseISO_fixed 0 (timestamp p)) two_days =
   map Date
     (map (\<lambda>h. \<lparr>year = 2024, month = 6, day = 1, hours = h, minutes = 0, seconds = 0,
                 milliseconds = 0\<rparr>) day_hours @
      map (\<lambda>h. \<lparr>year = 2024, month = 6, day = 2, hours = h, minutes = 0, seconds = 0,
                 milliseconds = 0\<rparr>) day_hours)"
  by (simp add: two_days_def day_hours_def parse_two_days)

lemma sorted_wrt_not_later:
  assumes "map (\<lambda>p. parseISO_fixed tz (timestamp p)) ps = map Date cs"
    and "sorted (map civil_fields cs)"
  shows "sorted_wrt (not_later tz) ps"
proof -
  from assms(1) have len: "length ps = length cs"
    by (metis length_map)
  have nth: "parseISO_fixed tz (timestamp (ps ! i)) = Date (cs ! i)" if "i < length ps" for i
  proof -
    from that
    have "map (\<lambda>p. parseISO_fixed tz (timestamp p)) ps ! i = parseISO_fixed tz (timestamp (ps ! i))"
      by simp
    moreover from that len have "map Date cs ! i = Date (cs ! i)" by simp
    ultimately show ?thesis using assms(1) by simp
  qed
  have "not_later tz (ps ! i) (ps ! j)" if "i < j" "j < length ps" for i j
  proof -
    from that assms(2) len have "civil_fields (cs ! i) \<le> civil_fields (cs ! j)"
      by (simp add: sorted_iff_nth_mono_less)
    with that show ?thesis by (simp add: not_later_def nth)
  qed
  then show ?thesis by (simp add: sorted_wrt_iff_nth_less)
qed

lemma sorted_two_days: "sorted_wrt (not_later 0) two_days"
  by (rule sorted_wrt_not_later [OF parsed_two_days])
     (simp add: day_hours_def civil_fields_def)

text \<open>Strings that are not dates.\<close>

lemma not_a_date:
  "parseISO_fixed tz '''' = Invalid_Date" "parseISO_fixed tz ''n/a'' = Invalid_Date"
  by (simp_all add: parseISO_fixed_def splitDateString_def parseYear_def all_digits_def
      is_digit_def is_sign_def is_dateTimeDelimiter_def is_timeZoneDelimiter_def Let_def)

lemma format_invalid: "format_fixed Invalid_Date formatStr = Inl RangeError"
  by (simp add: format_fixed_def)

text \<open>With this library \<^verbatim>\<open>format\<close> returns exactly on the dates that are valid.\<close>

lemma date_fns_prints:
  "(\<exists>l. format (date_fns tz) (parseISO (date_fns tz) ts) (pattern_used series agg) = Inr l) \<longleftrightarrow>
   parseISO_fixed tz ts \<noteq> Invalid_Date"
  by (simp add: format_fixed_returns pattern_used_def)

lemma late_evening_written:
  "timestamp late_evening =
   write_stamp \<lparr>wyear = 2024, wmonth = 1, wday = 31, whour = 23, wminute = 30, wsecond = 0,
                 wzone = Zulu\<rparr>"
  by (simp add: late_evening_def write_stamp_def write_date_def write_designator_def
      addLeadingZeros_4 addLeadingZeros_2 digit_char_numerals)

lemma well_written_late_evening:
  "well_written \<lparr>wyear = 2024, wmonth = 1, wday = 31, whour = 23, wminute = 30, wsecond = 0,
                  wzone = Zulu\<rparr>"
  by (simp add: well_written_def validateDate_def days_in_month_def)

lemma parsed_late_evening:
  "parseISO_fixed 0 (timestamp late_evening) =
     Date \<lparr>year = 2024, month = 1, day = 31, hours = 23, minutes = 30, seconds = 0,
           milliseconds = 0\<rparr>"
  "parseISO_fixed 60 (timestamp late_evening) =
     Date \<lparr>year = 2024, month = 2, day = 1, hours = 0, minutes = 30, seconds = 0,
           milliseconds = 0\<rparr>"
  using parseISO_written [OF well_written_late_evening, of 0]
    parseISO_written [OF well_written_late_evening, of 60]
  unfolding late_evening_written
  by (simp_all add: offset_east_def fields_at_def add_days_def next_day_def days_in_month_def)

lemmas format_defs = format_fixed_def token_yyyy_def token_MM_def token_dd_def token_HH_def
  token_mm_def addLeadingZeros_2 addLeadingZeros_4 digit_char_numerals

section \<open>The claims about the aggregator\<close>

subsection \<open>Bucket means\<close>




subsection \<open>Bucket order\<close>

text \<open>
  C5. For a series of more than 24 points that is sorted, by the time of its timestamps or
  by any other order \<open>R\<close>, a daily or monthly aggregation that returns emits the buckets in
  the order in which their keys are first seen in the input: the labels are the keys of
  the first point of every bucket, these first points are a part of the input in input
  order, and so they are sorted as the input is. This holds whatever the library and the
  machine, as long as no key is an array index, which \<^verbatim>\<open>Object.entries\<close> would list first;
  the keys that date-fns prints have a hyphen in them and are none.
\<close>

theorem bucket_order:
  fixes L :: "'d datefns" and series :: "'n::{zero,one,plus,inverse} TimeSeriesPoint list"
  assumes "24 < length series" and "agg = daily \<or> agg = monthly"
    and "aggregateData L series agg = Inr out"
    and "sorted_wrt R series"
    and "\<forall>p\<in>set series. \<forall>k. bucket_key L agg p = Inr k \<longrightarrow> \<not> array_index k"
  shows "map (\<lambda>b. Inr (label b)) out = first_seen (map (bucket_key L agg) series) \<and>
         map (\<lambda>b. Inr (label b)) out =
           map (bucket_key L agg) (first_of_each (bucket_key L agg) series) \<and>
         set (first_of_each (bucket_key L agg) series) \<subseteq> set series \<and>
         sorted_wrt R (first_of_each (bucket_key L agg) series)"
proof -
  from assms(1-3) obtain g where g: "group_points L agg series [] = Inr g"
    and out': "out = map bucket_point (Object_entries g)"
    by (rule aggregateData_grouped)
  have "\<not> array_index k" if "k \<in> set (map fst g)" for k
  proof -
    from that grouped_keys [OF g] have "points_with_key L agg series k \<noteq> []" by simp
    then obtain p where "p \<in> set series" "bucket_key L agg p = Inr k"
      by (auto simp: points_with_key_def filter_empty_conv)
    with assms(5) show ?thesis by blast
  qed
  then have "Object_entries g = g" by (intro Object_entries_no_index) simp
  with out' have out: "out = map bucket_point g" by simp
  have "map (\<lambda>b. Inr (label b)) out = map Inr (map fst g)"
    by (simp add: out label_bucket_point comp_def)
  also have "\<dots> = first_seen (map (bucket_key L agg) series)"
    using group_points_keys [OF g] by simp
  finally have 1: "map (\<lambda>b. Inr (label b)) out = first_seen (map (bucket_key L agg) series)" .
  with first_seen_map [of "bucket_key L agg" series] sorted_wrt_first_of_each [OF assms(4)]
    set_first_of_each [of "bucket_key L agg" series]
  show ?thesis by simp
qed

text \<open>
  The two-day series is in chronological order on a machine in UTC; its two buckets come
  out in that order.
\<close>

theorem bucket_order_witness:
  "24 < length two_days \<and> sorted_wrt (not_later 0) two_days \<and>
   \<not> array_index ''2024-06-01'' \<and> \<not> array_index ''2024-06-02'' \<and>
   aggregateData (date_fns 0) two_days daily = Inr two_days_daily \<and>
   map label two_days_daily = [''2024-06-01'', ''2024-06-02''] \<and>
   map (\<lambda>b. Inr (label b)) two_days_daily =
     first_seen (map (bucket_key (date_fns 0) daily) two_days) \<and>
   sorted_wrt (not_later 0) (first_of_each (bucket_key (date_fns 0) daily) two_days)"
proof -
  have long: "24 < length two_days" by (simp add: length_two_days)
  have agg: "daily = daily \<or> daily = monthly" by simp
  have keys: "\<forall>p\<in>set two_days. \<forall>k. bucket_key (date_fns 0) daily p = Inr k \<longrightarrow> \<not> array_index k"
    using date_fns_hyphenated hyphenated_key(1) by blast
  note order = bucket_order [OF long agg aggregate_two_days sorted_two_days keys]
  moreover have "map label two_days_daily = [''2024-06-01'', ''2024-06-02'']"
    by (simp add: two_days_daily_def)
  moreover have "\<not> array_index ''2024-06-01''" "\<not> array_index ''2024-06-02''"
    by (simp_all add: hyphenated_key(1) hyphenated_def)
  ultimately show ?thesis using long sorted_two_days aggregate_two_days by blast
qed

subsection \<open>Totality\<close>

text \<open>
  C8, as stated, fails: \<^verbatim>\<open>parseISO\<close> reads \<^verbatim>\<open>n/a\<close> as Invalid Date, \<^verbatim>\<open>format\<close> throws on it,
  and so does the aggregation.
\<close>

theorem aggregateData_total_counterexample:
  "aggregateData (date_fns 0)
     [\<lparr>timestamp = ''n/a'', cloud_cover_pct = 40 :: real, lightning_prob_pct = 0\<rparr>] hourly =
   Inl (Inl RangeError)"
  by (simp add: aggregateData_def not_a_date format_invalid)

text \<open>
  C8, amended. Whatever the library and the machine, aggregation returns a sequence
  exactly when \<^verbatim>\<open>format\<close> returns for the parsed timestamp of every point of the series,
  with the pattern in use, and no key of a daily or monthly aggregation names a property
  of \<^verbatim>\<open>Object.prototype\<close> (no key that date-fns prints does); so it returns on the empty
  series. Otherwise it fails with the error that \<^verbatim>\<open>format\<close> throws, or with a
  \<^verbatim>\<open>TypeError\<close>. Every bucket that the grouping loop builds, and from which a daily or
  monthly output point is computed, holds as many values as there are input points with
  its key, at least one, so that each mean divides a sum by a positive count.
\<close>

theorem aggregateData_returns:
  fixes L :: "'d datefns" and series :: "'n::{zero,one,plus,inverse} TimeSeriesPoint list"
  shows "((\<exists>out. aggregateData L series agg = Inr out) \<longleftrightarrow>
          (\<forall>p\<in>set series.
             \<exists>l. format L (parseISO L (timestamp p)) (pattern_used series agg) = Inr l \<and>
                 (agg \<noteq> hourly \<and> 24 < length series \<longrightarrow>
                    l \<notin> set Object_prototype_names))) \<and>
         (\<exists>out. aggregateData L [] agg = Inr (out :: 'n ChartDataPoint list)) \<and>
         (group_points L agg series [] = Inr grouped \<longrightarrow>
          (agg \<noteq> hourly \<and> 24 < length series \<longrightarrow>
             aggregateData L series agg = Inr (map bucket_point (Object_entries grouped))) \<and>
          (\<forall>(key, v)\<in>set grouped.
             0 < length (cloud v) \<and>
             length (cloud v) = length (points_with_key L agg series key) \<and>
             0 < length (lightning v) \<and>
             length (lightning v) = length (points_with_key L agg series key)))"
proof -
  have "(\<exists>out. aggregateData L series agg = Inr out) \<longleftrightarrow>
          (\<forall>p\<in>set series.
             \<exists>l. format L (parseISO L (timestamp p)) (pattern_used series agg) = Inr l \<and>
                 (agg \<noteq> hourly \<and> 24 < length series \<longrightarrow>
                    l \<notin> set Object_prototype_names))"
  proof (cases "agg = hourly \<or> length series \<le> 24")
    case True
    then show ?thesis
      by (auto simp: aggregateData_def hourly_points_returns pattern_used_def)
  next
    case False
    then have "(\<exists>out. aggregateData L series agg = Inr out) \<longleftrightarrow>
               (\<exists>g. group_points L agg series [] = Inr g)"
      by (auto simp: aggregateData_def split: sum.splits)
    with False show ?thesis
      by (simp add: group_points_returns bucket_key_def pattern_used_def)
  qed
  moreover have "\<exists>out. aggregateData L [] agg = Inr (out :: 'n ChartDataPoint list)"
    by (simp add: aggregateData_def)
  moreover have "0 < length (cloud v) \<and>
             length (cloud v) = length (points_with_key L agg series key) \<and>
             0 < length (lightning v) \<and>
             length (lightning v) = length (points_with_key L agg series key)"
    if "group_points L agg series [] = Inr grouped" and "(key, v) \<in> set grouped" for key v
    using grouped_entry [OF that] by simp
  moreover have "aggregateData L series agg = Inr (map bucket_point (Object_entries grouped))"
    if "group_points L agg series [] = Inr grouped" and "agg \<noteq> hourly" "24 < length series"
    using that by (simp add: aggregateData_def)
  ultimately show ?thesis by blast
qed

text \<open>
  The two-day series on a machine in UTC: \<^verbatim>\<open>format\<close> returns for every point, the
  aggregation returns, and the two buckets of the grouping loop hold 24 values each.
\<close>

theorem aggregateData_returns_witness:
  "pattern_used two_days daily = ''yyyy-MM-dd'' \<and>
   Inl RangeError \<notin>
     (\<lambda>p. format (date_fns 0) (parseISO (date_fns 0) (timestamp p)) ''yyyy-MM-dd'') ` set two_days \<and>
   (\<exists>out. aggregateData (date_fns 0) two_days daily = Inr out) \<and>
   (\<exists>grouped. group_points (date_fns 0) daily two_days [] = Inr grouped \<and> length grouped = 2 \<and>
      (\<forall>(key, v)\<in>set grouped. length (cloud v) = 24 \<and> length (lightning v) = 24))"
proof -
  let ?grouped = "[(''2024-06-01'',
         \<lparr>cloud = map real day_hours, lightning = map (\<lambda>h. 10 :: real) day_hours\<rparr>),
        (''2024-06-02'',
         \<lparr>cloud = map (\<lambda>h. 50) day_hours, lightning = map (\<lambda>h. real (2 * h)) day_hours\<rparr>)]"
  note returns = aggregateData_returns [of "date_fns 0" two_days daily ?grouped]
  have pat: "pattern_used two_days daily = ''yyyy-MM-dd''"
    by (simp add: pattern_used_def length_two_days)
  from returns aggregate_two_days
  have all: "\<forall>p\<in>set two_days.
      \<exists>l. format (date_fns 0) (parseISO (date_fns 0) (timestamp p)) ''yyyy-MM-dd'' = Inr l \<and>
          (daily \<noteq> hourly \<and> 24 < length two_days \<longrightarrow> l \<notin> set Object_prototype_names)"
    unfolding pat by blast
  then have "Inl RangeError \<notin>
     (\<lambda>p. format (date_fns 0) (parseISO (date_fns 0) (timestamp p)) ''yyyy-MM-dd'') ` set two_days"
    by force
  moreover from returns grouped_two_days
  have "\<forall>(key, v)\<in>set ?grouped.
      0 < length (cloud v) \<and> length (cloud v) = length (points_with_key (date_fns 0) daily two_days key) \<and>
      0 < length (lightning v) \<and>
      length (lightning v) = length (points_with_key (date_fns 0) daily two_days key)"
    by blast
  moreover have "\<forall>(key, v)\<in>set ?grouped. length (cloud v) = 24 \<and> length (lightning v) = 24"
    by (simp add: day_hours_def)
  ultimately show ?thesis using pat aggregate_two_days grouped_two_days by fastforce
qed

subsection \<open>The short-series rule\<close>

text \<open>
  C2, as stated, fails: a short series returns no output at all when a timestamp is not a
  date, whatever the requested resolution. \<^verbatim>\<open>parseISO\<close> reads the empty string as Invalid
  Date.
\<close>

theorem short_series_counterexample:
  "aggregateData (date_fns 0)
     [\<lparr>timestamp = '''', cloud_cover_pct = 40 :: real, lightning_prob_pct = 0\<rparr>] daily =
   Inl (Inl RangeError)"
  by (simp add: aggregateData_def not_a_date format_invalid)

text \<open>
  C2, amended. For a series of at most 24 points and any requested resolution, whatever
  the library and the machine: when \<^verbatim>\<open>format\<close> returns a label for the parsed timestamp of
  every point, aggregation returns what the hourly resolution returns, one output point
  per input point, in input order, with the timestamp, the cloud cover and the lightning
  probability of that point unchanged and the label that \<^verbatim>\<open>format\<close> returns.
\<close>

theorem short_series_hourly:
  fixes L :: "'d datefns" and series :: "'n::{zero,one,plus,inverse} TimeSeriesPoint list"
  assumes "length series \<le> 24"
    and "\<forall>p\<in>set series. \<exists>l. format L (parseISO L (timestamp p)) ''dd/MM HH:mm'' = Inr l"
  shows "\<exists>out. aggregateData L series agg = Inr out \<and>
           aggregateData L series hourly = Inr out \<and>
           length out = length series \<and>
           (\<forall>i<length series.
              timestamp (out ! i) = timestamp (series ! i) \<and>
              cloud_cover_pct (out ! i) = cloud_cover_pct (series ! i) \<and>
              lightning_prob_pct (out ! i) = lightning_prob_pct (series ! i) \<and>
              format L (parseISO L (timestamp (series ! i))) ''dd/MM HH:mm'' =
                Inr (label (out ! i)))"
proof -
  from assms(2) obtain out where out: "hourly_points L series = Inr out"
    using hourly_points_returns [of L series] by blast
  with assms(1)
  have "aggregateData L series agg = Inr out" "aggregateData L series hourly = Inr out"
    by (simp_all add: aggregateData_def)
  with hourly_points_shape [OF out] show ?thesis by blast
qed

text \<open>
  Three points of one morning on a machine in UTC, requested by day: the answer has the
  three points.
\<close>

theorem short_series_hourly_witness:
  "length morning \<le> 24 \<and>
   Inl RangeError \<notin>
     (\<lambda>p. format (date_fns 0) (parseISO (date_fns 0) (timestamp p)) ''dd/MM HH:mm'') ` set morning \<and>
   aggregateData (date_fns 0) morning daily =
     Inr [\<lparr>timestamp = ''2024-06-01T06:00:00Z'', cloud_cover_pct = 6, lightning_prob_pct = 10,
           label = ''01/06 06:00''\<rparr>,
          \<lparr>timestamp = ''2024-06-01T07:00:00Z'', cloud_cover_pct = 7, lightning_prob_pct = 10,
           label = ''01/06 07:00''\<rparr>,
          \<lparr>timestamp = ''2024-06-01T08:00:00Z'', cloud_cover_pct = 8, lightning_prob_pct = 10,
           label = ''01/06 08:00''\<rparr>] \<and>
   (\<exists>out. aggregateData (date_fns 0) morning daily = Inr out \<and>
      aggregateData (date_fns 0) morning hourly = Inr out \<and> length out = length morning)"
proof -
  have short: "length morning \<le> 24" by (simp add: morning_def)
  have valid: "\<forall>p\<in>set morning.
      \<exists>l. format (date_fns 0) (parseISO (date_fns 0) (timestamp p)) ''dd/MM HH:mm'' = Inr l"
    by (simp add: morning_def parse_two_days format_fixed_def)
  have stamps: "hour_stamp ''2024-06-01'' 6 = ''2024-06-01T06:00:00Z''"
    "hour_stamp ''2024-06-01'' 7 = ''2024-06-01T07:00:00Z''"
    "hour_stamp ''2024-06-01'' 8 = ''2024-06-01T08:00:00Z''"
    by (simp_all add: hour_stamp_def addLeadingZeros_2 digit_char_numerals)
  have "hourly_points (date_fns 0) morning =
     Inr [\<lparr>timestamp = ''2024-06-01T06:00:00Z'', cloud_cover_pct = 6, lightning_prob_pct = 10,
           label = ''01/06 06:00''\<rparr>,
          \<lparr>timestamp = ''2024-06-01T07:00:00Z'', cloud_cover_pct = 7, lightning_prob_pct = 10,
           label = ''01/06 07:00''\<rparr>,
          \<lparr>timestamp = ''2024-06-01T08:00:00Z'', cloud_cover_pct = 8, lightning_prob_pct = 10,
           label = ''01/06 08:00''\<rparr>]"
    by (simp add: morning_def parse_two_days format_defs) (simp add: stamps)
  with short have result: "aggregateData (date_fns 0) morning daily =
     Inr [\<lparr>timestamp = ''2024-06-01T06:00:00Z'', cloud_cover_pct = 6, lightning_prob_pct = 10,
           label = ''01/06 06:00''\<rparr>,
          \<lparr>timestamp = ''2024-06-01T07:00:00Z'', cloud_cover_pct = 7, lightning_prob_pct = 10,
           label = ''01/06 07:00''\<rparr>,
          \<lparr>timestamp = ''2024-06-01T08:00:00Z'', cloud_cover_pct = 8, lightning_prob_pct = 10,
           label = ''01/06 08:00''\<rparr>]"
    by (simp add: aggregateData_def)
  from short_series_hourly [OF short valid, of daily]
  have "\<exists>out. aggregateData (date_fns 0) morning daily = Inr out \<and>
      aggregateData (date_fns 0) morning hourly = Inr out \<and> length out = length morning"
    by blast
  moreover have "Inl RangeError \<notin>
     (\<lambda>p. format (date_fns 0) (parseISO (date_fns 0) (timestamp p)) ''dd/MM HH:mm'') ` set morning"
    using valid by force
  ultimately show ?thesis using short result by blast
qed

section \<open>The system time zone\<close>

subsection \<open>Dependence of the output on the environment\<close>





subsection \<open>Bucket keys and the written date\<close>

text \<open>
  C4, as stated, fails: a conversion to local time is applied. On a machine one hour east
  of UTC the point stamped \<^verbatim>\<open>2024-01-31T23:30:00Z\<close> is put into the day \<^verbatim>\<open>2024-02-01\<close> and
  the month \<^verbatim>\<open>2024-02\<close>. And the year is printed as a year of the era: on a machine in UTC
  the point stamped \<^verbatim>\<open>0000-06-01T12:00:00Z\<close> is put into the day \<^verbatim>\<open>0001-06-01\<close>.
\<close>

theorem bucket_key_local_date_counterexample:
  "take 10 (timestamp late_evening) = ''2024-01-31'' \<and>
   bucket_key (date_fns 60) daily late_evening = Inr ''2024-02-01'' \<and>
   take 7 (timestamp late_evening) = ''2024-01'' \<and>
   bucket_key (date_fns 60) monthly late_evening = Inr ''2024-02'' \<and>
   bucket_key (date_fns 0) daily
     \<lparr>timestamp = ''0000-06-01T12:00:00Z'', cloud_cover_pct = 0 :: real,
      lightning_prob_pct = 0\<rparr> = Inr ''0001-06-01''"
proof -
  let ?w = "\<lparr>wyear = 0, wmonth = 6, wday = 1, whour = 12, wminute = 0, wsecond = 0,
             wzone = Zulu\<rparr>"
  have w: "well_written ?w" by (simp add: well_written_def validateDate_def days_in_month_def)
  have s: "''0000-06-01T12:00:00Z'' = write_stamp ?w"
    by (simp add: write_stamp_def write_date_def write_designator_def
      addLeadingZeros_4 addLeadingZeros_2 digit_char_numerals)
  have "bucket_key (date_fns 0) daily
     \<lparr>timestamp = ''0000-06-01T12:00:00Z'', cloud_cover_pct = 0 :: real,
      lightning_prob_pct = 0\<rparr> = Inr ''0001-06-01''"
    unfolding s using w
    by (simp add: daily_key_written days_carried_def offset_east_def add_days_def day_key_def
        addLeadingZeros_4 addLeadingZeros_2 digit_char_numerals)
  moreover have "bucket_key (date_fns 60) daily late_evening = Inr ''2024-02-01''"
    "bucket_key (date_fns 60) monthly late_evening = Inr ''2024-02''"
    using parsed_late_evening(2)
    by (simp_all add: bucket_key_def format_fixed_keys day_key_def month_key_def
        addLeadingZeros_4 addLeadingZeros_2 digit_char_numerals)
  ultimately show ?thesis by (simp add: late_evening_def)
qed

text \<open>
  C4, amended. For a point whose timestamp is written as a date in a year of four digits,
  \<^verbatim>\<open>T\<close>, a time of day to the second and a zone designator that is absent, \<^verbatim>\<open>Z\<close> or a sign
  with hours and minutes, on a machine whose zone has a fixed offset to UTC of at most a
  day: the daily bucket key is the date that lies \<open>days_carried\<close> days after the written
  date, which is the date of the instant in the local time of the machine, printed with
  the year of the era; the monthly key is the year and month of that date. The written
  time of day in minutes, plus the offset of the machine, less the written offset (the
  offset of the machine, when there is no designator), divided by 1440 and rounded down,
  is \<open>days_carried\<close>. When it is 0 and the written year is 0001 or later, the keys are the
  written date, the first ten characters of the timestamp, and its first seven.
\<close>

theorem bucket_key_written:
  assumes "well_written w" and "\<bar>tz\<bar> \<le> 1440" and "timestamp p = write_stamp w"
  shows "bucket_key (date_fns tz) daily p =
           Inr (day_key (add_days (days_carried tz w) (int (wyear w), wmonth w, wday w))) \<and>
         bucket_key (date_fns tz) monthly p =
           Inr (month_key (add_days (days_carried tz w) (int (wyear w), wmonth w, wday w))) \<and>
         (days_carried tz w = 0 \<and> 1 \<le> wyear w \<longrightarrow>
            bucket_key (date_fns tz) daily p = Inr (take 10 (timestamp p)) \<and>
            bucket_key (date_fns tz) monthly p = Inr (take 7 (timestamp p)))"
proof -
  note keys = keys_written [OF assms]
  have "bucket_key (date_fns tz) daily p = Inr (take 10 (timestamp p)) \<and>
        bucket_key (date_fns tz) monthly p = Inr (take 7 (timestamp p))"
    if "days_carried tz w = 0" and "1 \<le> wyear w"
    using keys keys_written_date [OF assms(1) that(2)] that(1) assms(3)
    by (simp add: add_days_def)
  with keys show ?thesis by blast
qed

text \<open>
  On a machine one hour east of UTC: a timestamp written with the offset of the machine
  is keyed by its written date, and the same time of day written in UTC is keyed by the
  next day.
\<close>

theorem bucket_key_written_witness:
  "write_stamp \<lparr>wyear = 2024, wmonth = 1, wday = 31, whour = 23, wminute = 30, wsecond = 0,
                 wzone = East 1 0\<rparr> = ''2024-01-31T23:30:00+01:00'' \<and>
   days_carried 60 \<lparr>wyear = 2024, wmonth = 1, wday = 31, whour = 23, wminute = 30, wsecond = 0,
                    wzone = East 1 0\<rparr> = 0 \<and>
   bucket_key (date_fns 60) daily
     \<lparr>timestamp = ''2024-01-31T23:30:00+01:00'', cloud_cover_pct = 75 :: real,
      lightning_prob_pct = 5\<rparr> = Inr ''2024-01-31'' \<and>
   bucket_key (date_fns 60) monthly
     \<lparr>timestamp = ''2024-01-31T23:30:00+01:00'', cloud_cover_pct = 75 :: real,
      lightning_prob_pct = 5\<rparr> = Inr ''2024-01'' \<and>
   days_carried 60 \<lparr>wyear = 2024, wmonth = 1, wday = 31, whour = 23, wminute = 30, wsecond = 0,
                    wzone = Zulu\<rparr> = 1 \<and>
   add_days 1 (2024, 1, 31) = (2024, 2, 1) \<and>
   bucket_key (date_fns 60) daily late_evening = Inr (day_key (2024, 2, 1))"
proof -
  let ?e = "\<lparr>wyear = 2024, wmonth = 1, wday = 31, whour = 23, wminute = 30, wsecond = 0,
             wzone = East 1 0\<rparr>"
  let ?z = "\<lparr>wyear = 2024, wmonth = 1, wday = 31, whour = 23, wminute = 30, wsecond = 0,
             wzone = Zulu\<rparr>"
  let ?p = "\<lparr>timestamp = ''2024-01-31T23:30:00+01:00'', cloud_cover_pct = 75 :: real,
      lightning_prob_pct = 5\<rparr>"
  have we: "well_written ?e" by (simp add: well_written_def validateDate_def days_in_month_def)
  have se: "write_stamp ?e = ''2024-01-31T23:30:00+01:00''"
    by (simp add: write_stamp_def write_date_def write_designator_def
      addLeadingZeros_4 addLeadingZeros_2 digit_char_numerals)
  have tz: "\<bar>60 :: int\<bar> \<le> 1440" by simp
  have ce: "days_carried 60 ?e = 0" by (simp add: days_carried_def offset_east_def)
  have cz: "days_carried 60 ?z = 1" by (simp add: days_carried_def offset_east_def)
  have next_day: "add_days 1 (2024, 1, 31) = (2024, 2, 1)"
    by (simp add: add_days_def next_day_def days_in_month_def)
  have pe: "timestamp ?p = write_stamp ?e"
    by (simp add: write_stamp_def write_date_def write_designator_def
      addLeadingZeros_4 addLeadingZeros_2 digit_char_numerals)
  from bucket_key_written [OF we tz pe]
  have "days_carried 60 ?e = 0 \<and> 1 \<le> wyear ?e \<longrightarrow>
      bucket_key (date_fns 60) daily ?p = Inr (take 10 (timestamp ?p)) \<and>
      bucket_key (date_fns 60) monthly ?p = Inr (take 7 (timestamp ?p))"
    by (rule conjunct2 [THEN conjunct2])
  moreover have "1 \<le> wyear ?e" by simp
  ultimately have "bucket_key (date_fns 60) daily ?p = Inr (take 10 (timestamp ?p))"
    "bucket_key (date_fns 60) monthly ?p = Inr (take 7 (timestamp ?p))"
    using ce by blast+
  then have 1: "bucket_key (date_fns 60) daily ?p = Inr ''2024-01-31''"
    "bucket_key (date_fns 60) monthly ?p = Inr ''2024-01''"
    by simp_all
  from bucket_key_written [OF well_written_late_evening tz late_evening_written]
  have "bucket_key (date_fns 60) daily late_evening =
        Inr (day_key (add_days (days_carried 60 ?z) (int (wyear ?z), wmonth ?z, wday ?z)))"
    by (rule conjunct1)
  then have 2: "bucket_key (date_fns 60) daily late_evening = Inr (day_key (2024, 2, 1))"
    unfolding cz using next_day by simp
  from se ce 1 cz next_day 2 show ?thesis by simp
qed

section \<open>Properties of the pattern panel\<close>

lemma pattern_cards_not_null: "pattern_cards ps \<noteq> Inr cs \<or> length cs = length ps"
  by (induction ps arbitrary: cs) (auto split: sum.splits)

lemma AIPatternsPanel_stable_day:
  "AIPatternsPanel stable_day =
   Inr (Some (Section (Str ''Stable conditions'') (Num (3 / 10))
     [(''stable atmosphere'', Num (7 / 10)), (''convective risk'', Num (3 / 10))]))"
  by (simp add: AIPatternsPanel_def stable_day_def opt_def nullish_def property_def truthy_def
      pattern_card_def get_def replace_underscores_def)

text \<open>
  C9, as stated, fails: a \<^verbatim>\<open>patterns\<close> field that is a string, not an array, has a length;
  the guard lets it pass and the call of \<^verbatim>\<open>map\<close> throws.
\<close>

theorem AIPatternsPanel_string_counterexample:
  "AIPatternsPanel (Obj [(''patterns'', Str ''unavailable'')]) = Inl TypeError"
  by (simp add: AIPatternsPanel_def opt_def nullish_def property_def truthy_def)

text \<open>
  C9, amended. The panel renders nothing, and does not fail, exactly when the \<^verbatim>\<open>patterns\<close>
  field of its input has no length that counts as true: when the input is \<^verbatim>\<open>null\<close> or has
  no such field, or the field is \<^verbatim>\<open>null\<close>, an empty array, an empty string, a number, a
  boolean, or an object without a \<^verbatim>\<open>length\<close> that counts as true.
\<close>

theorem AIPatternsPanel_null:
  "AIPatternsPanel d = Inr None \<longleftrightarrow> without_length (opt d ''patterns'')"
proof (cases "without_length (opt d ''patterns'')")
  case True
  then have "\<not> truthy (opt (opt d ''patterns'') ''length'')"
    by (cases "opt d ''patterns''")
       (simp_all add: without_length_def opt_def nullish_def property_def truthy_def)
  with True show ?thesis by (simp add: AIPatternsPanel_def)
next
  case False
  then have t: "truthy (opt (opt d ''patterns'') ''length'')"
    by (cases "opt d ''patterns''")
       (simp_all add: without_length_def opt_def nullish_def property_def truthy_def)
  from False have "\<not> nullish d"
    by (auto simp: opt_def without_length_def)
  then have p: "property d ''patterns'' = opt d ''patterns''" by (simp add: opt_def)
  have "AIPatternsPanel d \<noteq> Inr None"
    using t unfolding AIPatternsPanel_def Let_def p
    by (cases "opt d ''patterns''") (auto split: sum.splits)
  with False show ?thesis by simp
qed

text \<open>Inputs without the field, with an empty array, with a number, and \<^verbatim>\<open>null\<close>.\<close>

theorem AIPatternsPanel_null_witness:
  "AIPatternsPanel (Obj [(''summary'', Str ''No data'')]) = Inr None \<and>
   AIPatternsPanel (Obj [(''patterns'', Arr [])]) = Inr None \<and>
   AIPatternsPanel (Obj [(''patterns'', Num 3)]) = Inr None \<and>
   AIPatternsPanel Null = Inr None"
proof -
  have "without_length (opt (Obj [(''summary'', Str ''No data'')]) ''patterns'')"
    "without_length (opt (Obj [(''patterns'', Arr [])]) ''patterns'')"
    "without_length (opt (Obj [(''patterns'', Num 3)]) ''patterns'')"
    "without_length (opt Null ''patterns'')"
    by (simp_all add: without_length_def opt_def nullish_def property_def)
  then show ?thesis unfolding AIPatternsPanel_null by simp
qed

section \<open>Properties of the application state\<close>

text \<open>
  When the pattern request is answered with a status that is not OK, the weather data
  stays and the pattern state is \<^verbatim>\<open>null\<close>: the charts are shown without the panel.
\<close>

lemma ai_http_failure_is_soft:
  "fetchWeatherByCoords ai_first (Fulfilled (Response True (Inr w)))
     (Fulfilled (Response False body)) s =
   \<lparr>weatherData = Some w, aiPatterns = Null, loading = False, error = None\<rparr>"
  by (simp add: fetchWeatherByCoords_def fetch_try_def Promise_all_def)

lemma ai_http_failure_view:
  "App_view (fetchWeatherByCoords ai_first (Fulfilled (Response True (Inr w)))
     (Fulfilled (Response False body)) s) =
   \<lparr>error_banner = None, loading_notice = False, charts = Some w, patterns_panel = None,
    empty_state = False\<rparr>"
  by (simp add: ai_http_failure_is_soft App_view_def truthy_def)

text \<open>
  C6. The claim asks that a failed pattern request never costs the weather data. The code
  does that for a response with an error status, above, but not for a request that is
  rejected: \<^verbatim>\<open>Promise.all\<close> then rejects, and the \<^verbatim>\<open>catch\<close> block replaces the weather data
  by the error banner, although the weather request was answered with a forecast.
\<close>

theorem ai_rejection_is_fatal:
  "fetchWeatherByCoords False (Fulfilled (Response True (Inr stockholm)))
     (Rejected (Error ''Failed to fetch'')) initial_App =
     \<lparr>weatherData = None, aiPatterns = Null, loading = False,
      error = Some ''Failed to fetch''\<rparr> \<and>
   charts (App_view (fetchWeatherByCoords False (Fulfilled (Response True (Inr stockholm)))
     (Rejected (Error ''Failed to fetch'')) initial_App)) = None \<and>
   error_banner (App_view (fetchWeatherByCoords False (Fulfilled (Response True (Inr stockholm)))
     (Rejected (Error ''Failed to fetch'')) initial_App)) = Some ''Failed to fetch''"
  by (simp add: fetchWeatherByCoords_def fetch_try_def Promise_all_def initial_App_def
      message_def App_view_def)

section \<open>Properties of the search bar\<close>

lemma requests_setQuery: "requests (setQuery v s) = requests s"
  by (simp add: setQuery_def query_effect_def Let_def)

lemma guarded_step: "guarded s \<Longrightarrow> guarded (step s ev)"
  by (cases ev)
     (auto simp: guarded_def step_def requests_setQuery searchLocations_def
        search_response_def handleSubmit_def handleSelect_def
        split: option.splits search_outcome.splits)

lemma guarded_foldl: "guarded s \<Longrightarrow> guarded (foldl step s evs)"
  by (induction evs arbitrary: s) (simp_all add: guarded_step)

lemma search_trace:
  "requests (run [Change ''S'', Timer, Change ''St'', Timer]) = [''St'']"
  "trim (query (run [Change ''  ''])) = []"
  by (simp_all add: run_def step_def setQuery_def query_effect_def initial_SearchBar_def
      searchLocations_def trim_def is_space_def Let_def)

text \<open>
  C10. Whatever the user does and however the requests end, the search bar issues a
  suggestion request only for a query whose trimmed length is at least 2; and a submit
  while the query is empty or white space only does not call \<^verbatim>\<open>onSearch\<close>.
\<close>

theorem search_guards:
  "(\<forall>q\<in>set (requests (run evs)). 2 \<le> length (trim q)) \<and>
   (trim (query s) = [] \<longrightarrow> searches (step s Submit) = searches s)"
proof -
  have "guarded initial_SearchBar" by (simp add: guarded_def initial_SearchBar_def)
  then have "guarded (run evs)" unfolding run_def by (rule guarded_foldl)
  then show ?thesis by (simp add: guarded_def step_def handleSubmit_def)
qed

text \<open>
  Typing \<^verbatim>\<open>S\<close> and then \<^verbatim>\<open>St\<close>, with the timer firing after each: one request, for \<^verbatim>\<open>St\<close>.
  Typing two spaces and submitting: no search.
\<close>

theorem search_guards_witness:
  "requests (run [Change ''S'', Timer, Change ''St'', Timer]) = [''St''] \<and>
   2 \<le> length (trim ''St'') \<and>
   trim (query (run [Change ''  ''])) = [] \<and>
   searches (step (run [Change ''  '']) Submit) = searches (run [Change ''  ''])"
proof -
  note g = search_guards [of "[Change ''S'', Timer, Change ''St'', Timer]" "run [Change ''  '']"]
  from g search_trace(1) have "2 \<le> length (trim ''St'')" by simp
  moreover from g search_trace(2)
  have "searches (step (run [Change ''  '']) Submit) = searches (run [Change ''  ''])"
    by blast
  ultimately show ?thesis using search_trace by blast
qed

section \<open>Properties of the location resolver\<close>

lemma not_separator_digit: "is_digit c \<Longrightarrow> \<not> is_separator_char c"
  by (auto simp: is_digit_def is_separator_char_def is_space_def)

lemma parse_unsigned_chars:
  assumes "parse_unsigned s = Some v"
  shows "s \<noteq> [] \<and> (\<forall>c\<in>set s. \<not> is_separator_char c)"
proof -
  define whole where "whole = takeWhile is_digit s"
  define rest where "rest = dropWhile is_digit s"
  have s: "s = whole @ rest" by (simp add: whole_def rest_def)
  from assms have w: "whole \<noteq> []"
    and r: "rest = [] \<or> (hd rest = CHR ''.'' \<and> list_all is_digit (tl rest))"
    unfolding parse_unsigned_def Let_def whole_def [symmetric] rest_def [symmetric]
    by (auto split: if_splits)
  have dw: "\<forall>c\<in>set whole. is_digit c"
    unfolding whole_def by (auto dest: set_takeWhileD)
  have dr: "\<forall>c\<in>set rest. is_digit c \<or> c = CHR ''.''"
  proof (cases rest)
    case Nil
    then show ?thesis by simp
  next
    case (Cons r0 rs)
    with r show ?thesis by (auto simp: list_all_iff)
  qed
  have dot: "\<not> is_separator_char (CHR ''.'')"
    by (simp add: is_separator_char_def is_space_def)
  from dw dr have "\<forall>c\<in>set s. is_digit c \<or> c = CHR ''.''"
    unfolding s by auto
  with dot have "\<forall>c\<in>set s. \<not> is_separator_char c"
    using not_separator_digit by blast
  moreover from w have "s \<noteq> []" unfolding s by simp
  ultimately show ?thesis by simp
qed

lemma parse_decimal_chars:
  assumes "parse_decimal a = Some x"
  shows "a \<noteq> [] \<and> (\<forall>c\<in>set a. \<not> is_separator_char c)"
proof -
  have sign: "\<not> is_separator_char (CHR ''-'')" "\<not> is_separator_char (CHR ''+'')"
    by (simp_all add: is_separator_char_def is_space_def)
  consider (minus) "a \<noteq> []" "hd a = CHR ''-''"
    | (plus) "a \<noteq> []" "hd a = CHR ''+''" "hd a \<noteq> CHR ''-''"
    | (none) "a = [] \<or> (hd a \<noteq> CHR ''-'' \<and> hd a \<noteq> CHR ''+'')"
    by blast
  then show ?thesis
  proof cases
    case minus
    with assms obtain v where "parse_unsigned (tl a) = Some v"
      by (auto simp: parse_decimal_def)
    from parse_unsigned_chars [OF this] minus sign show ?thesis
      by (cases a) auto
  next
    case plus
    with assms have "parse_unsigned (tl a) = Some x"
      by (auto simp: parse_decimal_def)
    from parse_unsigned_chars [OF this] plus sign show ?thesis
      by (cases a) auto
  next
    case none
    with assms have "parse_unsigned a = Some x"
      by (auto simp: parse_decimal_def)
    from parse_unsigned_chars [OF this] show ?thesis .
  qed
qed

lemma parse_pair_append:
  assumes "parse_decimal a = Some x" and "parse_decimal b = Some y" and "is_separator sep"
  shows "parse_pair (a @ sep @ b) = Some (x, y)"
proof -
  from parse_decimal_chars [OF assms(1)] have a: "\<forall>c\<in>set a. \<not> is_separator_char c" by simp
  from parse_decimal_chars [OF assms(2)] obtain b0 bs where b: "b = b0 # bs"
    and b0: "\<not> is_separator_char b0"
    by (cases b) auto
  from assms(3) obtain s0 ss where sep: "sep = s0 # ss" and s0: "is_separator_char s0"
    and all: "\<forall>c\<in>set sep. is_separator_char c"
    by (cases sep) (auto simp: is_separator_def list_all_iff)
  have 1: "takeWhile (\<lambda>c. \<not> is_separator_char c) (a @ sep @ b) = a"
    using a s0 by (simp add: takeWhile_append2 sep)
  have 2: "dropWhile (\<lambda>c. \<not> is_separator_char c) (a @ sep @ b) = sep @ b"
    using a s0 by (simp add: dropWhile_append2 sep)
  have 3: "takeWhile is_separator_char (sep @ b) = sep"
    using all b0 by (simp add: takeWhile_append2 b)
  have 4: "dropWhile is_separator_char (sep @ b) = b"
    using all b0 by (simp add: dropWhile_append2 b)
  show ?thesis
    unfolding parse_pair_def 1 2 3 4 Let_def using assms by simp
qed

lemmas decimal_defs = parse_pair_def parse_decimal_def parse_unsigned_def digits_value_def
  is_separator_def is_separator_char_def is_space_def is_digit_def digit_val_def Let_def

text \<open>
  C7. A query made of two decimal numbers with a comma and/or white space between them,
  the first within -90..90 and the second within -180..180, is resolved to these
  coordinates without a call of the geocoding service. When one of the two numbers is out
  of its range the query is not resolved directly: it is handed to the geocoding service,
  once and as it is, and the answer is what the service finds. The query \<^verbatim>\<open>200, 18.0\<close> is
  such a query.
\<close>

theorem direct_coordinates:
  "(parse_decimal a = Some x \<and> parse_decimal b = Some y \<and> is_separator sep \<and>
    - 90 \<le> x \<and> x \<le> 90 \<and> - 180 \<le> y \<and> y \<le> 180 \<longrightarrow>
    resolve geocode pick_single (a @ sep @ b) =
      (Inr (Direct \<lparr>latitude = x, longitude = y\<rparr>), [])) \<and>
   (parse_decimal a = Some x \<and> parse_decimal b = Some y \<and> is_separator sep \<and>
    (x < - 90 \<or> 90 < x \<or> y < - 180 \<or> 180 < y) \<longrightarrow>
    resolve geocode pick_single (a @ sep @ b) = geocoded geocode pick_single (a @ sep @ b) \<and>
    snd (resolve geocode pick_single (a @ sep @ b)) = [a @ sep @ b]) \<and>
   resolve geocode pick_single ''200, 18.0'' = geocoded geocode pick_single ''200, 18.0'' \<and>
   snd (resolve geocode pick_single ''200, 18.0'') = [''200, 18.0'']"
proof -
  have "resolve geocode pick_single (a @ sep @ b) =
      (Inr (Direct \<lparr>latitude = x, longitude = y\<rparr>), [])"
    if "parse_decimal a = Some x" "parse_decimal b = Some y" "is_separator sep"
      "- 90 \<le> x" "x \<le> 90" "- 180 \<le> y" "y \<le> 180"
    using that parse_pair_append [OF that(1-3)] by (simp add: resolve_def in_range_def)
  moreover have "resolve geocode pick_single (a @ sep @ b) =
        geocoded geocode pick_single (a @ sep @ b) \<and>
      snd (resolve geocode pick_single (a @ sep @ b)) = [a @ sep @ b]"
    if "parse_decimal a = Some x" "parse_decimal b = Some y" "is_separator sep"
      "x < - 90 \<or> 90 < x \<or> y < - 180 \<or> 180 < y"
  proof -
    from that(4) have "\<not> in_range (x, y)" by (auto simp: in_range_def)
    with parse_pair_append [OF that(1-3)]
    have "resolve geocode pick_single (a @ sep @ b) = geocoded geocode pick_single (a @ sep @ b)"
      by (simp add: resolve_def)
    then show ?thesis by (simp add: geocoded_def Let_def)
  qed
  moreover have "parse_pair ''200, 18.0'' = Some (200, 18)"
    by (simp add: decimal_defs)
  then have r: "resolve geocode pick_single ''200, 18.0'' =
      geocoded geocode pick_single ''200, 18.0''"
    by (simp add: resolve_def in_range_def)
  moreover have "snd (resolve geocode pick_single ''200, 18.0'') = [''200, 18.0'']"
    unfolding r by (simp add: geocoded_def Let_def)
  ultimately show ?thesis by blast
qed

text \<open>
  The queries \<^verbatim>\<open>59.3, 18.0\<close> and \<^verbatim>\<open>59.3 18.0\<close>, and the queries \<^verbatim>\<open>200, 18.0\<close>,
  \<^verbatim>\<open>59.3, 500\<close> and \<^verbatim>\<open>-90.5 18.0\<close> with a service that finds nothing.
\<close>

theorem direct_coordinates_witness:
  "parse_decimal ''59.3'' = Some (593 / 10) \<and> parse_decimal ''18.0'' = Some 18 \<and>
   parse_decimal ''200'' = Some 200 \<and> parse_decimal ''500'' = Some 500 \<and>
   parse_decimal ''-90.5'' = Some (- 181 / 2) \<and>
   is_separator '', '' \<and> is_separator '' '' \<and>
   resolve (\<lambda>q. []) False ''59.3, 18.0'' =
     (Inr (Direct \<lparr>latitude = 593 / 10, longitude = 18\<rparr>), []) \<and>
   resolve (\<lambda>q. []) False ''59.3 18.0'' =
     (Inr (Direct \<lparr>latitude = 593 / 10, longitude = 18\<rparr>), []) \<and>
   resolve (\<lambda>q. []) False ''200, 18.0'' = (Inl LocationNotFoundError, [''200, 18.0'']) \<and>
   resolve (\<lambda>q. []) False ''59.3, 500'' = (Inl LocationNotFoundError, [''59.3, 500'']) \<and>
   resolve (\<lambda>q. []) False ''-90.5 18.0'' = (Inl LocationNotFoundError, [''-90.5 18.0''])"
proof -
  have a: "parse_decimal ''59.3'' = Some (593 / 10)" by (simp add: decimal_defs)
  have b: "parse_decimal ''18.0'' = Some 18" by (simp add: decimal_defs)
  have c: "parse_decimal ''200'' = Some 200" by (simp add: decimal_defs)
  have d: "parse_decimal ''500'' = Some 500" by (simp add: decimal_defs)
  have e: "parse_decimal ''-90.5'' = Some (- 181 / 2)" by (simp add: decimal_defs)
  have s1: "is_separator '', ''" and s2: "is_separator '' ''" by (simp_all add: decimal_defs)
  note direct = direct_coordinates [of "''59.3''" "593 / 10" "''18.0''" 18 _ "\<lambda>q. []" False]
  from direct [of "'', ''"] a b s1
  have 1: "resolve (\<lambda>q. []) False (''59.3'' @ '', '' @ ''18.0'') =
     (Inr (Direct \<lparr>latitude = 593 / 10, longitude = 18\<rparr>), [])" by simp
  from direct [of "'' ''"] a b s2
  have 2: "resolve (\<lambda>q. []) False (''59.3'' @ '' '' @ ''18.0'') =
     (Inr (Direct \<lparr>latitude = 593 / 10, longitude = 18\<rparr>), [])" by simp
  from direct_coordinates [of "''200''" 200 "''18.0''" 18 "'', ''" "\<lambda>q. []" False] c b s1
  have "resolve (\<lambda>q. []) False (''200'' @ '', '' @ ''18.0'') =
        geocoded (\<lambda>q. []) False (''200'' @ '', '' @ ''18.0'')" by simp
  then have 3: "resolve (\<lambda>q. []) False ''200, 18.0'' =
        (Inl LocationNotFoundError, [''200, 18.0''])"
    by (simp add: geocoded_def)
  from direct_coordinates [of "''59.3''" "593 / 10" "''500''" 500 "'', ''" "\<lambda>q. []" False] a d s1
  have "resolve (\<lambda>q. []) False (''59.3'' @ '', '' @ ''500'') =
        geocoded (\<lambda>q. []) False (''59.3'' @ '', '' @ ''500'')" by simp
  then have 4: "resolve (\<lambda>q. []) False ''59.3, 500'' =
        (Inl LocationNotFoundError, [''59.3, 500''])"
    by (simp add: geocoded_def)
  from direct_coordinates [of "''-90.5''" "- 181 / 2" "''18.0''" 18 "'' ''" "\<lambda>q. []" False] e b s2
  have "resolve (\<lambda>q. []) False (''-90.5'' @ '' '' @ ''18.0'') =
        geocoded (\<lambda>q. []) False (''-90.5'' @ '' '' @ ''18.0'')" by simp
  then have 5: "resolve (\<lambda>q. []) False ''-90.5 18.0'' =
        (Inl LocationNotFoundError, [''-90.5 18.0''])"
    by (simp add: geocoded_def)
  from 1 2 3 4 5 a b c d e s1 s2 show ?thesis by simp
qed

end
